theory Spec2Isabelle
  imports Complex_Main
begin

section \<open>Python values\<close>

text \<open>
  A Python \<open>str\<close> is a sequence of Unicode code points. The accent classes of
  \<open>normalize_accents\<close> hold the curly quotes U+2018 and U+2019, which no 8-bit
  character has, so a string is a list of code points here and \<open>length\<close> counts what
  Python's \<open>len\<close> counts.
\<close>

type_synonym pystr = "nat list"

definition of_ascii :: "string \<Rightarrow> pystr" where
  "of_ascii s = map of_char s"

text \<open>The exceptions the two programs can raise; none but the first is ever caught.\<close>

datatype error =
    FileNotFoundError
  | IndexError
  | ValueError
  | AttributeError
  | NameError
  | UnboundLocalError

text \<open>A module-level or local name: bound to a value, or not yet assigned.\<close>

datatype 'a binding = Unbound | Bound 'a

section \<open>Built-in string operations\<close>

text \<open>\<open>str.isspace\<close> on one code point: the white space that \<open>str.strip()\<close> removes.\<close>

definition py_isspace :: "nat \<Rightarrow> bool" where
  "py_isspace c \<longleftrightarrow>
     (9 \<le> c \<and> c \<le> 13) \<or> (28 \<le> c \<and> c \<le> 32) \<or> c = 133 \<or> c = 160 \<or> c = 5760 \<or>
     (8192 \<le> c \<and> c \<le> 8202) \<or> c = 8232 \<or> c = 8233 \<or> c = 8239 \<or> c = 8287 \<or> c = 12288"

definition py_strip :: "pystr \<Rightarrow> pystr" where
  "py_strip s = rev (dropWhile py_isspace (rev (dropWhile py_isspace s)))"

text \<open>\<open>s.split(sep)\<close> for a one-character separator: always at least one field.\<close>

fun py_split :: "nat \<Rightarrow> pystr \<Rightarrow> pystr list" where
  "py_split sep [] = [[]]"
| "py_split sep (c # cs) =
     (if c = sep then [] # py_split sep cs
      else (case py_split sep cs of
              [] \<Rightarrow> [[c]]
            | f # fs \<Rightarrow> (c # f) # fs))"

fun py_join :: "pystr \<Rightarrow> pystr list \<Rightarrow> pystr" where
  "py_join sep [] = []"
| "py_join sep [x] = x"
| "py_join sep (x # y # ys) = x @ sep @ py_join sep (y # ys)"

text \<open>
  \<open>xs[i]\<close>: a negative index counts from the end, and an index outside the
  sequence raises IndexError. \<open>xs[:i]\<close> never raises.
\<close>

definition py_getitem :: "'a list \<Rightarrow> int \<Rightarrow> error + 'a" where
  "py_getitem xs i =
     (let n = int (length xs);
          k = (if i < 0 then i + n else i)
      in if k < 0 \<or> n \<le> k then Inl IndexError else Inr (xs ! nat k))"

definition py_slice_to :: "'a list \<Rightarrow> int \<Rightarrow> 'a list" where
  "py_slice_to xs i =
     (let n = int (length xs);
          k = (if i < 0 then i + n else i)
      in take (nat k) xs)"

text \<open>
  \<open>s.replace(old, new)\<close>: every non-overlapping occurrence of \<open>old\<close>, from the left;
  an empty \<open>old\<close> matches before every character and at the end.
\<close>

fun replace_nonempty :: "pystr \<Rightarrow> pystr \<Rightarrow> pystr \<Rightarrow> pystr" where
  "replace_nonempty old new [] = []"
| "replace_nonempty old new (c # cs) =
     (if take (length old) (c # cs) = old
      then new @ replace_nonempty old new (drop (length old - 1) cs)
      else c # replace_nonempty old new cs)"

definition py_replace :: "pystr \<Rightarrow> pystr \<Rightarrow> pystr \<Rightarrow> pystr" where
  "py_replace s old new =
     (if old = [] then new @ concat (map (\<lambda>c. c # new) s)
      else replace_nonempty old new s)"

text \<open>
  \<open>int(s)\<close> in base ten: white space around the number is dropped, one sign is
  allowed, and single underscores may stand between digits. Anything else raises
  ValueError. The digits are the ASCII ones (code points 48 to 57).
\<close>

definition is_digit :: "nat \<Rightarrow> bool" where
  "is_digit c \<longleftrightarrow> 48 \<le> c \<and> c \<le> 57"

fun digits_ok :: "pystr \<Rightarrow> bool" where
  "digits_ok [] = False"
| "digits_ok [c] = is_digit c"
| "digits_ok (c # d # ds) =
     (is_digit c \<and> (if d = 95 then digits_ok ds else digits_ok (d # ds)))"

definition digits_value :: "pystr \<Rightarrow> nat" where
  "digits_value ds = foldl (\<lambda>a d. 10 * a + (d - 48)) 0 (filter is_digit ds)"

definition py_int :: "pystr \<Rightarrow> error + int" where
  "py_int s =
     (let t = py_strip s;
          neg = (case t of [] \<Rightarrow> False | c # _ \<Rightarrow> c = 45);
          ds = (case t of [] \<Rightarrow> [] | c # r \<Rightarrow> if c = 45 \<or> c = 43 then r else t)
      in if digits_ok ds
         then Inr (if neg then - int (digits_value ds) else int (digits_value ds))
         else Inl ValueError)"

section \<open>Accent normalisation\<close>

text \<open>
  \<^verbatim>\<open>re.sub(r'[...]', c, form)\<close> with a character class and a one-character
  replacement: every code point of the class becomes \<open>c\<close>, every other one stays.
\<close>

definition re_sub_class :: "nat list \<Rightarrow> nat \<Rightarrow> pystr \<Rightarrow> pystr" where
  "re_sub_class cls c form = map (\<lambda>x. if x \<in> set cls then c else x) form"

text \<open>
  \<open>normalize_accents\<close>, the same eleven substitutions in this order in
  \<^verbatim>\<open>rule_based_transformations.py\<close> and in
  \<^verbatim>\<open>vocabulary_based_transformations_v2.py\<close>. The classes are the code points
  of the source text: a-grave, a-acute, a-circumflex (224, 225, 226) and so on; the e
  classes hold the grave and the circumflex only, and the last class the two curly
  quotes.
\<close>

definition normalize_accents :: "pystr \<Rightarrow> pystr" where
  "normalize_accents form0 =
    (let form = re_sub_class [224, 225, 226] 97 form0;
         form = re_sub_class [232, 234] 101 form;
         form = re_sub_class [236, 237, 238, 239] 105 form;
         form = re_sub_class [242, 243, 244] 111 form;
         form = re_sub_class [249, 250, 251] 117 form;
         form = re_sub_class [192, 193, 194] 65 form;
         form = re_sub_class [200, 202] 69 form;
         form = re_sub_class [204, 205, 206, 207] 73 form;
         form = re_sub_class [210, 211, 212] 79 form;
         form = re_sub_class [217, 218, 219] 85 form;
         form = re_sub_class [8217, 8216] 39 form
     in form)"

text \<open>
  The trailing-space trim both corpus transformers apply to the joined text:
  \<^verbatim>\<open>if text[-2] == ' ': text = text[:-2] + text[-1]\<close>.
\<close>

definition trim_trailing_space :: "pystr \<Rightarrow> error + pystr" where
  "trim_trailing_space text =
     (case py_getitem text (- 2) of
        Inl e \<Rightarrow> Inl e
      | Inr c \<Rightarrow>
          if c = 32
          then (case py_getitem text (- 1) of
                  Inl e \<Rightarrow> Inl e
                | Inr l \<Rightarrow> Inr (py_slice_to text (- 2) @ [l]))
          else Inr text)"

section \<open>Files, output rows and library collaborators\<close>

text \<open>
  A file system maps a path to the lines that iterating over the open file yields; a
  path with no file makes \<open>open\<close> raise FileNotFoundError. A CSV row is a list of
  cells, the line number an integer cell.
\<close>

type_synonym files = "pystr \<rightharpoonup> pystr list"

datatype cell = Num nat | Str pystr

type_synonym csv_row = "cell list"

definition header_row :: csv_row where
  "header_row = [Str (of_ascii ''ID''), Str (of_ascii ''Alsatian_transformed'')]"

text \<open>
  What the programs call but do not define. \<open>tokenise\<close> is the tokeniser of the
  module \<^verbatim>\<open>alsatian_tokeniser\<close>: the token strings of a text, in order.
  \<open>set_iter\<close> is the order in which Python iterates over a set of strings, given
  its elements in insertion order: it follows the strings' hashes, which change from
  one interpreter run to the next. \<open>lower\<close> is \<open>str.lower\<close> and \<open>fill\<close> is
  \<^verbatim>\<open>textwrap.fill\<close>.
\<close>

record library =
  tokenise :: "pystr \<Rightarrow> pystr list"
  set_iter :: "pystr list \<Rightarrow> pystr list"
  lower :: "pystr \<Rightarrow> pystr"
  fill :: "pystr \<Rightarrow> nat \<Rightarrow> pystr"

text \<open>
  An iteration order is one of a set: it lists each element of the set once.
\<close>

definition iterates_sets :: "(pystr list \<Rightarrow> pystr list) \<Rightarrow> bool" where
  "iterates_sets f \<longleftrightarrow> (\<forall>xs. distinct xs \<longrightarrow> distinct (f xs) \<and> set (f xs) = set xs)"


section \<open>The rule-based program\<close>

subsection \<open>\<open>create_dictionary\<close>\<close>

text \<open>
  One line of the rule file: \<^verbatim>\<open>line.strip().split('\t')\<close>, then the columns 0,
  1 and 2, the last through \<open>int\<close>. A line with fewer than three columns raises
  IndexError and a count that is no number raises ValueError.
\<close>

definition parse_rule :: "pystr \<Rightarrow> error + (pystr \<times> pystr \<times> int)" where
  "parse_rule line =
     (let columns = py_split 9 (py_strip line) in
      case py_getitem columns 0 of
        Inl e \<Rightarrow> Inl e
      | Inr link \<Rightarrow>
          (case py_getitem columns 1 of
             Inl e \<Rightarrow> Inl e
           | Inr target_link \<Rightarrow>
               (case py_getitem columns 2 of
                  Inl e \<Rightarrow> Inl e
                | Inr count \<Rightarrow>
                    (case py_int count of
                       Inl e \<Rightarrow> Inl e
                     | Inr nbr_cases \<Rightarrow> Inr (link, target_link, nbr_cases)))))"

text \<open>
  \<open>dictionary\<close> maps a target link to a set of links. A dict keeps its keys in
  insertion order, so it is an association list; a set is held as its elements in
  the order they were added, each once.
\<close>

type_synonym dictionary = "(pystr \<times> pystr list) list"

definition set_add :: "pystr list \<Rightarrow> pystr \<Rightarrow> pystr list" where
  "set_add s x = (if x \<in> set s then s else s @ [x])"

fun dictionary_add :: "dictionary \<Rightarrow> pystr \<Rightarrow> pystr \<Rightarrow> dictionary" where
  "dictionary_add [] target_link link = [(target_link, [link])]"
| "dictionary_add ((k, s) # d) target_link link =
     (if k = target_link then (k, set_add s link) # d
      else (k, s) # dictionary_add d target_link link)"

fun read_rules :: "dictionary \<Rightarrow> pystr list \<Rightarrow> error + dictionary" where
  "read_rules dictionary [] = Inr dictionary"
| "read_rules dictionary (line # rest) =
     (case parse_rule line of
        Inl e \<Rightarrow> Inl e
      | Inr (link, target_link, nbr_cases) \<Rightarrow>
          read_rules
            (if nbr_cases \<ge> 10 then dictionary_add dictionary target_link link
             else dictionary)
            rest)"

text \<open>
  \<^verbatim>\<open>pattern = r'(' + '|'.join(value) + ')'\<close>, the join running over the set in
  its iteration order, and \<^verbatim>\<open>linked_dict[key] = {pattern}\<close>, a set of one
  pattern.
\<close>

type_synonym linked_dict = "(pystr \<times> pystr list) list"

definition make_pattern :: "pystr list \<Rightarrow> pystr" where
  "make_pattern alternatives = [40] @ py_join [124] alternatives @ [41]"

definition link_patterns :: "(pystr list \<Rightarrow> pystr list) \<Rightarrow> dictionary \<Rightarrow> linked_dict" where
  "link_patterns iter dictionary =
     map (\<lambda>(key, v). (key, [make_pattern (iter v)])) dictionary"

definition not_found_message :: "pystr \<Rightarrow> pystr" where
  "not_found_message path = of_ascii ''File '' @ [39] @ path @ [39] @ of_ascii '' not found.''"

text \<open>
  The result is what was printed and the table. Only FileNotFoundError is caught; it
  leaves the table empty.
\<close>

definition create_dictionary ::
  "'a library_scheme \<Rightarrow> files \<Rightarrow> pystr \<Rightarrow> error + (pystr list \<times> linked_dict)" where
  "create_dictionary L fs dictionary_file_path =
     (case fs dictionary_file_path of
        None \<Rightarrow> Inr ([not_found_message dictionary_file_path], [])
      | Some lines \<Rightarrow>
          (case read_rules [] lines of
             Inl e \<Rightarrow> Inl e
           | Inr dictionary \<Rightarrow> Inr ([], link_patterns (set_iter L) dictionary)))"

subsection \<open>Matching a pattern\<close>

text \<open>
  \<^verbatim>\<open>re.search(pattern, token)\<close> for the patterns \<open>create_dictionary\<close> builds,
  an alternation of links between parentheses. The links are taken as literal text,
  which they are when they hold no character that is special in a regular expression.
  The search tries the positions of the token from the left and, at each position,
  the alternatives in their order; \<open>match.group()\<close> is the alternative found.
\<close>

definition pattern_alternatives :: "pystr \<Rightarrow> pystr list" where
  "pattern_alternatives pattern = py_split 124 (butlast (tl pattern))"

fun search_alternatives :: "pystr list \<Rightarrow> pystr \<Rightarrow> pystr option" where
  "search_alternatives alts [] = find (\<lambda>a. a = []) alts"
| "search_alternatives alts (c # cs) =
     (case find (\<lambda>a. take (length a) (c # cs) = a) alts of
        Some a \<Rightarrow> Some a
      | None \<Rightarrow> search_alternatives alts cs)"

definition re_search :: "pystr \<Rightarrow> pystr \<Rightarrow> pystr option" where
  "re_search pattern s = search_alternatives (pattern_alternatives pattern) s"

subsection \<open>\<open>process_corpus\<close>\<close>

text \<open>The two loops over the table and over a key's patterns, for one token.\<close>

fun apply_patterns :: "pystr \<Rightarrow> pystr list \<Rightarrow> pystr \<Rightarrow> pystr" where
  "apply_patterns key [] modified_token = modified_token"
| "apply_patterns key (pattern # rest) modified_token =
     apply_patterns key rest
       (case re_search pattern modified_token of
          None \<Rightarrow> modified_token
        | Some matched \<Rightarrow> py_replace modified_token matched key)"

fun apply_rules :: "linked_dict \<Rightarrow> pystr \<Rightarrow> pystr" where
  "apply_rules [] modified_token = modified_token"
| "apply_rules ((key, pattern_set) # rest) modified_token =
     apply_rules rest (apply_patterns key pattern_set modified_token)"

text \<open>
  The loop over the tokens of a line. \<open>linked_tokens\<close> starts empty on every line.
  \<open>unaccented_tokens\<close> is assigned in the body of this loop and nowhere else, so
  its binding is part of the state the loop starts from.
\<close>

fun token_loop ::
  "linked_dict \<Rightarrow> pystr list \<Rightarrow> pystr list \<times> pystr list binding \<Rightarrow>
   pystr list \<times> pystr list binding" where
  "token_loop linked_dict [] st = st"
| "token_loop linked_dict (token # rest) (linked_tokens, unaccented_tokens) =
     (let modified_token = apply_rules linked_dict token;
          linked_tokens = linked_tokens @ [modified_token];
          unaccented_tokens = Bound (map normalize_accents linked_tokens)
      in token_loop linked_dict rest (linked_tokens, unaccented_tokens))"

text \<open>
  The body of the loop over the corpus lines, from the binding of
  \<open>unaccented_tokens\<close> the earlier lines left: the text written for the line and
  the binding it leaves.
\<close>

definition rule_process_line ::
  "'a library_scheme \<Rightarrow> linked_dict \<Rightarrow> pystr list binding \<Rightarrow> pystr \<Rightarrow>
   error + (pystr \<times> pystr list binding)" where
  "rule_process_line L linked_dict unaccented_before line =
     (case py_getitem (py_split 59 (py_strip line)) 1 of
        Inl e \<Rightarrow> Inl e
      | Inr text \<Rightarrow>
          (let tokens = tokenise L text;
               (linked_tokens, unaccented_tokens) =
                  token_loop linked_dict tokens ([], unaccented_before)
           in case unaccented_tokens of
                Unbound \<Rightarrow> Inl UnboundLocalError
              | Bound toks \<Rightarrow>
                  (case trim_trailing_space (py_join [32] toks) of
                     Inl e \<Rightarrow> Inl e
                   | Inr linked_text \<Rightarrow> Inr (linked_text, unaccented_tokens))))"

fun rule_corpus_loop ::
  "'a library_scheme \<Rightarrow> linked_dict \<Rightarrow> nat \<Rightarrow> pystr list binding \<Rightarrow> pystr list \<Rightarrow>
   error + csv_row list" where
  "rule_corpus_loop L linked_dict i unaccented_tokens [] = Inr []"
| "rule_corpus_loop L linked_dict i unaccented_tokens (line # rest) =
     (case rule_process_line L linked_dict unaccented_tokens line of
        Inl e \<Rightarrow> Inl e
      | Inr (linked_text, unaccented_tokens) \<Rightarrow>
          (case rule_corpus_loop L linked_dict (Suc i) unaccented_tokens rest of
             Inl e \<Rightarrow> Inl e
           | Inr rows \<Rightarrow> Inr ([Num i, Str linked_text] # rows)))"

text \<open>
  The rows of the output file when the run ends normally, the exception when it does
  not. The lines are numbered from 1.
\<close>

definition rule_process_corpus ::
  "'a library_scheme \<Rightarrow> files \<Rightarrow> pystr \<Rightarrow> linked_dict \<Rightarrow> error + csv_row list" where
  "rule_process_corpus L fs corpus_file_path linked_dict =
     (case fs corpus_file_path of
        None \<Rightarrow> Inl FileNotFoundError
      | Some lines \<Rightarrow>
          (case rule_corpus_loop L linked_dict 1 Unbound lines of
             Inl e \<Rightarrow> Inl e
           | Inr rows \<Rightarrow> Inr (header_row # rows)))"

definition corpus_file_path :: pystr where
  "corpus_file_path = of_ascii ''../input/smallcorpus.txt''"

text \<open>The program: the table, then the corpus. What it printed and the rows it wrote.\<close>

definition rule_based_main ::
  "'a library_scheme \<Rightarrow> files \<Rightarrow> pystr \<Rightarrow> error + (pystr list \<times> csv_row list)" where
  "rule_based_main L fs dictionary_file_path =
     (case create_dictionary L fs dictionary_file_path of
        Inl e \<Rightarrow> Inl e
      | Inr (printed, linked_dict) \<Rightarrow>
          (case rule_process_corpus L fs corpus_file_path linked_dict of
             Inl e \<Rightarrow> Inl e
           | Inr rows \<Rightarrow> Inr (printed, rows)))"

section \<open>The similarity ratio of \<open>difflib\<close>\<close>

text \<open>
  \<open>b2j\<close> maps an element of \<open>b\<close> to the indices where it stands, in increasing
  order. With \<open>autojunk\<close> on, as it is by default, a \<open>b\<close> of 200 elements or
  more loses the elements that occur more than \<open>n // 100 + 1\<close> times. \<open>b2j_get\<close>
  is \<^verbatim>\<open>b2j.get(elt, [])\<close>.
\<close>

definition b2j_get :: "pystr \<Rightarrow> nat \<Rightarrow> nat list" where
  "b2j_get b elt =
     (let indices = map fst (filter (\<lambda>(j, x). x = elt) (enumerate 0 b));
          n = length b
      in if n \<ge> 200 \<and> length indices > n div 100 + 1 then [] else indices)"

text \<open>
  \<open>find_longest_match\<close>. The loop over the indices of \<open>a[i]\<close> in \<open>b\<close> fills
  \<open>newj2len\<close> and keeps the best block seen; a dict of lengths is a function that
  is 0 where the dict has no key, which is what \<^verbatim>\<open>j2len.get(j-1, 0)\<close> reads.
\<close>

type_synonym best = "nat \<times> nat \<times> nat"

fun inner_loop ::
  "nat \<Rightarrow> nat \<Rightarrow> nat \<Rightarrow> (nat \<Rightarrow> nat) \<Rightarrow> nat list \<Rightarrow> (nat \<Rightarrow> nat) \<times> best \<Rightarrow>
   (nat \<Rightarrow> nat) \<times> best" where
  "inner_loop i blo bhi j2len [] st = st"
| "inner_loop i blo bhi j2len (j # js) (newj2len, besti, bestj, bestsize) =
     (if j < blo then inner_loop i blo bhi j2len js (newj2len, besti, bestj, bestsize)
      else if j \<ge> bhi then (newj2len, besti, bestj, bestsize)
      else
        (let k = (if j = 0 then 0 else j2len (j - 1)) + 1;
             newj2len = newj2len(j := k)
         in if k > bestsize
            then inner_loop i blo bhi j2len js (newj2len, Suc i - k, Suc j - k, k)
            else inner_loop i blo bhi j2len js (newj2len, besti, bestj, bestsize)))"

text \<open>\<^verbatim>\<open>for i in range(alo, ahi)\<close>, with a fresh \<open>newj2len\<close> for every \<open>i\<close>.\<close>

function outer_loop ::
  "pystr \<Rightarrow> pystr \<Rightarrow> nat \<Rightarrow> nat \<Rightarrow> nat \<Rightarrow> nat \<Rightarrow> (nat \<Rightarrow> nat) \<times> best \<Rightarrow>
   (nat \<Rightarrow> nat) \<times> best" where
  "outer_loop a b blo bhi i ahi (j2len, bst) =
     (if i < ahi
      then outer_loop a b blo bhi (Suc i) ahi
             (inner_loop i blo bhi j2len (b2j_get b (a ! i)) (\<lambda>_. 0, bst))
      else (j2len, bst))"
  by pat_completeness auto
termination
  by (relation "measure (\<lambda>(a, b, blo, bhi, i, ahi, st). ahi - i)") auto

text \<open>
  The two loops that extend the best block over equal elements on each side. No
  element is junk (\<open>isjunk\<close> is None), so the two loops after them, which extend
  over junk only, never run.
\<close>

function extend_left :: "pystr \<Rightarrow> pystr \<Rightarrow> nat \<Rightarrow> nat \<Rightarrow> best \<Rightarrow> best" where
  "extend_left a b alo blo (besti, bestj, bestsize) =
     (if besti > alo \<and> bestj > blo \<and> a ! (besti - 1) = b ! (bestj - 1)
      then extend_left a b alo blo (besti - 1, bestj - 1, bestsize + 1)
      else (besti, bestj, bestsize))"
  by pat_completeness auto
termination
  by (relation "measure (\<lambda>(a, b, alo, blo, besti, bestj, bestsize). besti)") auto

function extend_right :: "pystr \<Rightarrow> pystr \<Rightarrow> nat \<Rightarrow> nat \<Rightarrow> best \<Rightarrow> best" where
  "extend_right a b ahi bhi (besti, bestj, bestsize) =
     (if besti + bestsize < ahi \<and> bestj + bestsize < bhi \<and>
         a ! (besti + bestsize) = b ! (bestj + bestsize)
      then extend_right a b ahi bhi (besti, bestj, bestsize + 1)
      else (besti, bestj, bestsize))"
  by pat_completeness auto
termination
  by (relation "measure (\<lambda>(a, b, ahi, bhi, besti, bestj, bestsize). ahi - (besti + bestsize))")
    auto

declare outer_loop.simps [simp del] extend_left.simps [simp del] extend_right.simps [simp del]

definition find_longest_match :: "pystr \<Rightarrow> pystr \<Rightarrow> nat \<Rightarrow> nat \<Rightarrow> nat \<Rightarrow> nat \<Rightarrow> best" where
  "find_longest_match a b alo ahi blo bhi =
     extend_right a b ahi bhi
       (extend_left a b alo blo
          (snd (outer_loop a b blo bhi alo ahi (\<lambda>_. 0, alo, blo, 0))))"

text \<open>
  The block found lies in the window it was searched in: the indices computed with
  \<open>i-k+1\<close> and \<open>j-k+1\<close> never fall below \<open>alo\<close> and \<open>blo\<close>, and a block that
  is not empty ends before \<open>ahi\<close> and \<open>bhi\<close>.
\<close>

definition in_window :: "nat \<Rightarrow> nat \<Rightarrow> nat \<Rightarrow> nat \<Rightarrow> best \<Rightarrow> bool" where
  "in_window alo blo ahi bhi bst =
     (case bst of (besti, bestj, bestsize) \<Rightarrow>
        alo \<le> besti \<and> blo \<le> bestj \<and>
        (bestsize = 0 \<and> besti = alo \<and> bestj = blo \<or>
         besti + bestsize \<le> ahi \<and> bestj + bestsize \<le> bhi))"

lemma inner_loop_in_window:
  assumes "\<forall>j. j2len j \<le> i - alo \<and> j2len j \<le> Suc j - blo" "alo \<le> i"
    "\<forall>j. new j \<le> Suc i - alo \<and> new j \<le> Suc j - blo"
    "in_window alo blo (Suc i) bhi bst"
    "inner_loop i blo bhi j2len js (new, bst) = (new', bst')"
  shows "(\<forall>j. new' j \<le> Suc i - alo \<and> new' j \<le> Suc j - blo) \<and> in_window alo blo (Suc i) bhi bst'"
  using assms
proof (induction js arbitrary: new bst)
  case Nil
  then show ?case by simp
next
  case (Cons j js)
  obtain besti bestj bestsize where bst: "bst = (besti, bestj, bestsize)"
    by (cases bst) auto
  show ?case
  proof (cases "j < blo")
    case True
    with Cons bst show ?thesis by simp
  next
    case lo: False
    show ?thesis
    proof (cases "j \<ge> bhi")
      case True
      with Cons.prems lo bst show ?thesis by simp
    next
      case hi: False
      define k where "k = (if j = 0 then 0 else j2len (j - 1)) + 1"
      have "j2len (j - 1) \<le> i - alo"
        using Cons.prems(1) by blast
      then have k1: "k \<le> Suc i - alo"
        using Cons.prems(2) by (auto simp: k_def Suc_diff_le)
      have "j2len (j - 1) \<le> Suc (j - 1) - blo"
        using Cons.prems(1) by blast
      then have k2: "k \<le> Suc j - blo"
        using lo by (auto simp: k_def)
      have kpos: "0 < k" by (simp add: k_def)
      have new_ok: "\<forall>j'. (new(j := k)) j' \<le> Suc i - alo \<and> (new(j := k)) j' \<le> Suc j' - blo"
        using Cons.prems(3) k1 k2 by simp
      have best_ok: "in_window alo blo (Suc i) bhi (Suc i - k, Suc j - k, k)"
        using k1 k2 kpos hi lo Cons.prems(2) by (auto simp: in_window_def)
      show ?thesis
      proof (cases "k > bestsize")
        case True
        have "inner_loop i blo bhi j2len js (new(j := k), Suc i - k, Suc j - k, k) = (new', bst')"
          using Cons.prems(5) lo hi True bst by (simp add: k_def Let_def)
        from Cons.IH [OF Cons.prems(1,2) new_ok best_ok this] show ?thesis .
      next
        case False
        have "inner_loop i blo bhi j2len js (new(j := k), bst) = (new', bst')"
          using Cons.prems(5) lo hi False bst by (simp add: k_def Let_def)
        from Cons.IH [OF Cons.prems(1,2) new_ok Cons.prems(4) this] show ?thesis .
      qed
    qed
  qed
qed

lemma in_window_mono: "in_window alo blo i bhi bst \<Longrightarrow> i \<le> i' \<Longrightarrow> in_window alo blo i' bhi bst"
  by (auto simp: in_window_def)

lemma outer_loop_in_window:
  assumes "\<forall>j. j2len j \<le> i - alo \<and> j2len j \<le> Suc j - blo" "alo \<le> i" "i \<le> ahi"
    "in_window alo blo i bhi bst"
  shows "in_window alo blo ahi bhi (snd (outer_loop a b blo bhi i ahi (j2len, bst)))"
  using assms
proof (induction a b blo bhi i ahi "(j2len, bst)" arbitrary: j2len bst rule: outer_loop.induct)
  case (1 a b blo bhi i ahi j2len bst)
  show ?case
  proof (cases "i < ahi")
    case True
    obtain new' bst' where
      r: "inner_loop i blo bhi j2len (b2j_get b (a ! i)) (\<lambda>_. 0, bst) = (new', bst')"
      by (cases "inner_loop i blo bhi j2len (b2j_get b (a ! i)) (\<lambda>_. 0, bst)") auto
    have "(\<forall>j. new' j \<le> Suc i - alo \<and> new' j \<le> Suc j - blo) \<and> in_window alo blo (Suc i) bhi bst'"
      by (rule inner_loop_in_window [OF "1.prems"(1,2) _ _ r])
        (simp_all add: in_window_mono [OF "1.prems"(4)])
    then have "in_window alo blo ahi bhi (snd (outer_loop a b blo bhi (Suc i) ahi (new', bst')))"
      using "1.hyps" [OF True r] True "1.prems"(2) by simp
    then show ?thesis
      using True r by (subst outer_loop.simps) simp
  next
    case False
    with "1.prems" show ?thesis
      by (subst outer_loop.simps) simp
  qed
qed

lemma extend_left_in_window:
  "in_window alo blo ahi bhi bst \<Longrightarrow> in_window alo blo ahi bhi (extend_left a b alo blo bst)"
proof (induction a b alo blo bst rule: extend_left.induct)
  case (1 a b alo blo besti bestj bestsize)
  show ?case
  proof (cases "besti > alo \<and> bestj > blo \<and> a ! (besti - 1) = b ! (bestj - 1)")
    case True
    have "in_window alo blo ahi bhi (besti - 1, bestj - 1, bestsize + 1)"
      using True "1.prems" by (auto simp: in_window_def)
    from "1.IH" [OF True this] show ?thesis
      by (subst extend_left.simps) (simp only: if_P [OF True])
  next
    case False
    have "extend_left a b alo blo (besti, bestj, bestsize) = (besti, bestj, bestsize)"
      by (subst extend_left.simps) (simp only: if_not_P [OF False])
    with "1.prems" show ?thesis by simp
  qed
qed

lemma extend_right_in_window:
  "in_window alo blo ahi bhi bst \<Longrightarrow> in_window alo blo ahi bhi (extend_right a b ahi bhi bst)"
proof (induction a b ahi bhi bst rule: extend_right.induct)
  case (1 a b ahi bhi besti bestj bestsize)
  show ?case
  proof (cases "besti + bestsize < ahi \<and> bestj + bestsize < bhi \<and>
         a ! (besti + bestsize) = b ! (bestj + bestsize)")
    case True
    have "in_window alo blo ahi bhi (besti, bestj, bestsize + 1)"
      using True "1.prems" by (auto simp: in_window_def)
    from "1.IH" [OF True this] show ?thesis
      by (subst extend_right.simps) (simp only: if_P [OF True])
  next
    case False
    have "extend_right a b ahi bhi (besti, bestj, bestsize) = (besti, bestj, bestsize)"
      by (subst extend_right.simps) (simp only: if_not_P [OF False])
    with "1.prems" show ?thesis by simp
  qed
qed

lemma find_longest_match_in_window:
  assumes "alo \<le> ahi"
  shows "in_window alo blo ahi bhi (find_longest_match a b alo ahi blo bhi)"
  unfolding find_longest_match_def
  by (intro extend_right_in_window extend_left_in_window outer_loop_in_window)
    (simp_all add: assms in_window_def)

lemma find_longest_match_empty:
  assumes "ahi \<le> alo"
  shows "find_longest_match a b alo ahi blo bhi = (alo, blo, 0)"
  using assms
  by (simp add: find_longest_match_def outer_loop.simps [of _ _ _ _ alo]
      extend_left.simps [of _ _ _ _ alo] extend_right.simps [of _ _ _ _ alo _ 0])

lemma find_longest_match_bounds:
  assumes "find_longest_match a b alo ahi blo bhi = (i, j, k)" "k \<noteq> 0"
  shows "alo \<le> i \<and> i + k \<le> ahi \<and> blo \<le> j \<and> j + k \<le> bhi"
proof (cases "alo \<le> ahi")
  case True
  from find_longest_match_in_window [OF this, of blo bhi a b] assms show ?thesis
    by (auto simp: in_window_def)
next
  case False
  then have "find_longest_match a b alo ahi blo bhi = (alo, blo, 0)"
    by (intro find_longest_match_empty) simp
  with assms show ?thesis by simp
qed

text \<open>
  The loop of \<open>get_matching_blocks\<close>. \<open>queue.pop()\<close> takes the window appended
  last, so the queue is a list with that window at its head. The loop ends because
  every window it appends is shorter than the one it took.
\<close>

type_synonym block = "nat \<times> nat \<times> nat"

function blocks_loop ::
  "pystr \<Rightarrow> pystr \<Rightarrow> (nat \<times> nat \<times> nat \<times> nat) list \<Rightarrow> block list \<Rightarrow> block list" where
  "blocks_loop a b [] matching_blocks = matching_blocks"
| "blocks_loop a b ((alo, ahi, blo, bhi) # queue) matching_blocks =
     (case find_longest_match a b alo ahi blo bhi of (i, j, k) \<Rightarrow>
        if k \<noteq> 0
        then blocks_loop a b
               ((if i + k < ahi \<and> j + k < bhi then [(i + k, ahi, j + k, bhi)] else []) @
                (if alo < i \<and> blo < j then [(alo, i, blo, j)] else []) @ queue)
               (matching_blocks @ [(i, j, k)])
        else blocks_loop a b queue matching_blocks)"
  by pat_completeness auto
termination
proof (relation "measure (\<lambda>(a, b, queue, mb).
    sum_list (map (\<lambda>(alo, ahi, blo, bhi). 2 * (ahi - alo) + 1) queue))", goal_cases)
  case 1
  then show ?case by simp
next
  case 2
  then show ?case
    by (auto dest!: find_longest_match_bounds [OF sym])
next
  case 3
  then show ?case by simp
qed

declare blocks_loop.simps [simp del]

text \<open>
  \<^verbatim>\<open>SequenceMatcher(None, a, b).ratio()\<close>: twice the number of matched elements
  over the two lengths. Sorting the blocks and merging adjacent ones, which
  \<open>get_matching_blocks\<close> does after the loop, leave the sum of the sizes as it is.
  The quotient is a float in Python and a rational here; two quotients of this kind
  that differ as rationals differ as floats, in the same direction, for strings
  of fewer than 2^25 elements.
\<close>

definition ratio :: "pystr \<Rightarrow> pystr \<Rightarrow> rat" where
  "ratio a b =
     (let matching_blocks = blocks_loop a b [(0, length a, 0, length b)] [];
          matches = sum_list (map (\<lambda>(i, j, k). k) matching_blocks);
          len = length a + length b
      in if len \<noteq> 0 then 2 * of_nat matches / of_nat len else 1)"

section \<open>The vocabulary-based program\<close>

subsection \<open>\<open>create_vocabulary\<close>\<close>

text \<open>
  \<open>vocab_language\<close> maps an Alsatian word to the pair of its translation and the
  second column of its row. The function returns the dict, or None.
\<close>

type_synonym vocab = "pystr \<rightharpoonup> pystr \<times> pystr"

text \<open>
  The loop over the candidates of one word, from \<open>max_sim_ratio = 0.0\<close> and
  \<open>trad = ''\<close>: a candidate is taken when its ratio is greater than every ratio
  before it.
\<close>

fun best_translation :: "pystr \<Rightarrow> pystr list \<Rightarrow> rat \<times> pystr \<Rightarrow> rat \<times> pystr" where
  "best_translation aw [] st = st"
| "best_translation aw (translation # rest) (max_sim_ratio, trad) =
     (let sim_ratio = ratio aw translation
      in if sim_ratio > max_sim_ratio
         then best_translation aw rest (sim_ratio, translation)
         else best_translation aw rest (max_sim_ratio, trad))"

definition choose_trad :: "pystr \<Rightarrow> pystr list \<Rightarrow> error + pystr" where
  "choose_trad aw translations_tab =
     (if length translations_tab > 0
      then Inr (snd (best_translation aw translations_tab (0, [])))
      else py_getitem translations_tab 0)"

text \<open>The loop over the Alsatian words of a row; a later word overwrites an equal one.\<close>

fun store_words :: "vocab \<Rightarrow> pystr list \<Rightarrow> pystr list \<Rightarrow> pystr list \<Rightarrow> error + vocab" where
  "store_words vocab_language columns translations_tab [] = Inr vocab_language"
| "store_words vocab_language columns translations_tab (aw # rest) =
     (case choose_trad aw translations_tab of
        Inl e \<Rightarrow> Inl e
      | Inr trad \<Rightarrow>
          (case py_getitem columns 1 of
             Inl e \<Rightarrow> Inl e
           | Inr pos \<Rightarrow>
               store_words (vocab_language(aw \<mapsto> (trad, pos))) columns translations_tab rest))"

text \<open>
  The column of the translations: column 3 for \<open>de\<close>, column 0 for \<open>ltz\<close>, and
  for any other language nothing (the function prints and returns None).
\<close>

definition select_translations :: "pystr \<Rightarrow> pystr list \<Rightarrow> error + pystr option" where
  "select_translations language columns =
     (if language = of_ascii ''de''
      then (case py_getitem columns 3 of Inl e \<Rightarrow> Inl e | Inr t \<Rightarrow> Inr (Some t))
      else if language = of_ascii ''ltz''
      then (case py_getitem columns 0 of Inl e \<Rightarrow> Inl e | Inr t \<Rightarrow> Inr (Some t))
      else Inr None)"

definition unsupported_message :: pystr where
  "unsupported_message =
     of_ascii ''The language you entered is not supported. Please try again.''"

text \<open>The loop over the lines of the vocabulary file: what was printed and the return value.\<close>

fun read_vocabulary ::
  "pystr \<Rightarrow> vocab \<Rightarrow> pystr list \<Rightarrow> error + (pystr list \<times> vocab option)" where
  "read_vocabulary language vocab_language [] = Inr ([], Some vocab_language)"
| "read_vocabulary language vocab_language (line # rest) =
     (let columns = py_split 9 (py_strip line) in
      case py_getitem columns 2 of
        Inl e \<Rightarrow> Inl e
      | Inr words \<Rightarrow>
          (case select_translations language columns of
             Inl e \<Rightarrow> Inl e
           | Inr None \<Rightarrow> Inr ([unsupported_message], None)
           | Inr (Some translations) \<Rightarrow>
               (case store_words vocab_language columns (py_split 59 translations)
                       (py_split 59 words) of
                  Inl e \<Rightarrow> Inl e
                | Inr vocab_language \<Rightarrow> read_vocabulary language vocab_language rest)))"

text \<open>\<open>open\<close> stands in no \<open>try\<close> here: a missing file raises.\<close>

definition create_vocabulary ::
  "files \<Rightarrow> pystr \<Rightarrow> pystr \<Rightarrow> error + (pystr list \<times> vocab option)" where
  "create_vocabulary fs vocabulary_file_path language =
     (case fs vocabulary_file_path of
        None \<Rightarrow> Inl FileNotFoundError
      | Some lines \<Rightarrow> read_vocabulary language Map.empty lines)"

subsection \<open>\<open>translate_token\<close> and \<open>process_corpus\<close>\<close>

text \<open>
  \<open>translate_token\<close> has one parameter and reads the module's global
  \<open>vocab_language\<close>: the first argument here is the binding of that global.
  \<^verbatim>\<open>vocab_language.get(token.lower(), token)\<close> returns the pair stored for the
  word, or the token itself.
\<close>

datatype translated = Tuple pystr pystr | Plain pystr

definition translate_token ::
  "'a library_scheme \<Rightarrow> vocab option binding \<Rightarrow> pystr \<Rightarrow> error + translated" where
  "translate_token L global_vocab_language token =
     (case global_vocab_language of
        Unbound \<Rightarrow> Inl NameError
      | Bound None \<Rightarrow> Inl AttributeError
      | Bound (Some d) \<Rightarrow>
          (case d (lower L token) of
             Some (trad, pos) \<Rightarrow> Inr (Tuple trad pos)
           | None \<Rightarrow> Inr (Plain token)))"

fun translate_tokens ::
  "'a library_scheme \<Rightarrow> vocab option binding \<Rightarrow> pystr list \<Rightarrow> error + translated list" where
  "translate_tokens L g [] = Inr []"
| "translate_tokens L g (token # rest) =
     (case translate_token L g token of
        Inl e \<Rightarrow> Inl e
      | Inr t \<Rightarrow>
          (case translate_tokens L g rest of
             Inl e \<Rightarrow> Inl e
           | Inr ts \<Rightarrow> Inr (t # ts)))"

text \<open>\<^verbatim>\<open>isinstance(translated_token, tuple)\<close> chooses between the two branches.\<close>

definition unaccent :: "pystr \<times> translated \<Rightarrow> pystr" where
  "unaccent p =
     (case p of (token, translated_token) \<Rightarrow>
        (case translated_token of
           Tuple trad pos \<Rightarrow> trad
         | Plain s \<Rightarrow> normalize_accents token))"

definition vocab_process_line ::
  "'a library_scheme \<Rightarrow> vocab option binding \<Rightarrow> nat \<Rightarrow> pystr \<Rightarrow> error + pystr" where
  "vocab_process_line L g column_width line =
     (case py_getitem (py_split 59 (py_strip line)) 1 of
        Inl e \<Rightarrow> Inl e
      | Inr text \<Rightarrow>
          (let tokens = tokenise L text in
           case translate_tokens L g tokens of
             Inl e \<Rightarrow> Inl e
           | Inr translation \<Rightarrow>
               (let unaccented_tokens = map unaccent (zip tokens translation) in
                case trim_trailing_space (py_join [32] unaccented_tokens) of
                  Inl e \<Rightarrow> Inl e
                | Inr modified_text \<Rightarrow> Inr (fill L modified_text column_width))))"

fun vocab_corpus_loop ::
  "'a library_scheme \<Rightarrow> vocab option binding \<Rightarrow> nat \<Rightarrow> nat \<Rightarrow> pystr list \<Rightarrow>
   error + csv_row list" where
  "vocab_corpus_loop L g column_width i [] = Inr []"
| "vocab_corpus_loop L g column_width i (line # rest) =
     (case vocab_process_line L g column_width line of
        Inl e \<Rightarrow> Inl e
      | Inr wrapped_text \<Rightarrow>
          (case vocab_corpus_loop L g column_width (Suc i) rest of
             Inl e \<Rightarrow> Inl e
           | Inr rows \<Rightarrow> Inr ([Num i, Str wrapped_text] # rows)))"

text \<open>
  \<open>process_corpus\<close> of the vocabulary module. Its parameter \<open>vocab_language\<close>
  is the fourth argument here; the global of the same name is the second.
\<close>

definition vocab_process_corpus ::
  "'a library_scheme \<Rightarrow> vocab option binding \<Rightarrow> files \<Rightarrow> pystr \<Rightarrow> vocab option \<Rightarrow> nat \<Rightarrow>
   error + csv_row list" where
  "vocab_process_corpus L g fs corpus_path vocab_language column_width =
     (case fs corpus_path of
        None \<Rightarrow> Inl FileNotFoundError
      | Some lines \<Rightarrow>
          (case vocab_corpus_loop L g column_width 1 lines of
             Inl e \<Rightarrow> Inl e
           | Inr rows \<Rightarrow> Inr (header_row # rows)))"

text \<open>
  The program: the global \<open>vocab_language\<close> is bound to what \<open>create_vocabulary\<close>
  returns, and the same value is passed to \<open>process_corpus\<close>, with the default
  column width.
\<close>

definition vocabulary_based_main ::
  "'a library_scheme \<Rightarrow> files \<Rightarrow> pystr \<Rightarrow> pystr \<Rightarrow> error + (pystr list \<times> csv_row list)" where
  "vocabulary_based_main L fs vocabulary_file_path language =
     (case create_vocabulary fs vocabulary_file_path language of
        Inl e \<Rightarrow> Inl e
      | Inr (printed, vocab_language) \<Rightarrow>
          (case vocab_process_corpus L (Bound vocab_language) fs corpus_file_path
                  vocab_language 50 of
             Inl e \<Rightarrow> Inl e
           | Inr rows \<Rightarrow> Inr (printed, rows)))"

section \<open>A library for concrete runs\<close>

text \<open>
  Concrete runs need a tokeniser and the other collaborators. This tokeniser cuts a
  text at its spaces and drops the empty pieces, this set iterates in insertion
  order, \<open>lower\<close> maps the ASCII capitals, and \<open>fill\<close> returns the text, which is
  what \<^verbatim>\<open>textwrap.fill\<close> does with a text of single-spaced words that fits the
  width.
\<close>

definition space_tokens :: "pystr \<Rightarrow> pystr list" where
  "space_tokens text = filter (\<lambda>t. t \<noteq> []) (py_split 32 text)"

definition ascii_lower :: "pystr \<Rightarrow> pystr" where
  "ascii_lower s = map (\<lambda>c. if 65 \<le> c \<and> c \<le> 90 then c + 32 else c) s"

definition plain_library :: library where
  "plain_library =
     \<lparr>tokenise = space_tokens, set_iter = (\<lambda>xs. xs), lower = ascii_lower,
      fill = (\<lambda>text width. text)\<rparr>"

text \<open>The same library with a set that iterates against insertion order.\<close>

definition reversing_library :: library where
  "reversing_library = plain_library\<lparr>set_iter := rev\<rparr>"

section \<open>Properties of accent normalisation\<close>

text \<open>What one substitution, and what the eleven in a row, do to one code point.\<close>

definition sub_cp :: "nat list \<Rightarrow> nat \<Rightarrow> nat \<Rightarrow> nat" where
  "sub_cp cls c x = (if x \<in> set cls then c else x)"

definition normalize_cp :: "nat \<Rightarrow> nat" where
  "normalize_cp x =
     sub_cp [8217, 8216] 39 (sub_cp [217, 218, 219] 85 (sub_cp [210, 211, 212] 79
     (sub_cp [204, 205, 206, 207] 73 (sub_cp [200, 202] 69 (sub_cp [192, 193, 194] 65
     (sub_cp [249, 250, 251] 117 (sub_cp [242, 243, 244] 111
     (sub_cp [236, 237, 238, 239] 105 (sub_cp [232, 234] 101
     (sub_cp [224, 225, 226] 97 x))))))))))"

definition accented :: "nat list" where
  "accented = [224, 225, 226, 232, 234, 236, 237, 238, 239, 242, 243, 244, 249, 250, 251,
     192, 193, 194, 200, 202, 204, 205, 206, 207, 210, 211, 212, 217, 218, 219, 8217, 8216]"

lemma re_sub_class_map: "re_sub_class cls c s = map (sub_cp cls c) s"
  unfolding re_sub_class_def sub_cp_def by (rule refl)

lemma normalize_accents_map: "normalize_accents s = map normalize_cp s"
  unfolding normalize_accents_def Let_def re_sub_class_map map_map
  by (rule arg_cong [where f = "\<lambda>f. map f s"]) (rule ext, simp only: o_def normalize_cp_def)

lemma sub_cp_other: "x \<notin> set cls \<Longrightarrow> sub_cp cls c x = x"
  by (simp add: sub_cp_def)

lemma normalize_cp_plain:
  assumes "x \<notin> set accented"
  shows "normalize_cp x = x"
proof -
  have "x \<notin> set [224, 225, 226]" "x \<notin> set [232, 234]" "x \<notin> set [236, 237, 238, 239]"
    "x \<notin> set [242, 243, 244]" "x \<notin> set [249, 250, 251]" "x \<notin> set [192, 193, 194]"
    "x \<notin> set [200, 202]" "x \<notin> set [204, 205, 206, 207]" "x \<notin> set [210, 211, 212]"
    "x \<notin> set [217, 218, 219]" "x \<notin> set [8217, 8216]"
    using assms by (simp_all add: accented_def)
  then show ?thesis
    unfolding normalize_cp_def by (simp add: sub_cp_other)
qed

lemma normalize_cp_accented:
  assumes "x \<in> set accented"
  shows "normalize_cp x \<notin> set accented"
proof -
  have "x \<in> {224, 225, 226, 232, 234, 236, 237, 238, 239, 242, 243, 244, 249, 250, 251,
     192, 193, 194, 200, 202, 204, 205, 206, 207, 210, 211, 212, 217, 218, 219, 8217, 8216}"
    using assms by (simp add: accented_def)
  then show ?thesis
    by (elim insertE emptyE) (simp_all add: normalize_cp_def sub_cp_def accented_def)
qed

lemma normalize_cp_idem: "normalize_cp (normalize_cp x) = normalize_cp x"
proof (cases "x \<in> set accented")
  case True
  then show ?thesis by (simp add: normalize_cp_accented normalize_cp_plain)
next
  case False
  then show ?thesis by (simp add: normalize_cp_plain)
qed

text \<open>
  C10. Accent normalisation is idempotent: for every string \<open>s\<close>, normalising the
  normalised string gives the normalised string again.
\<close>

theorem normalize_accents_idempotent:
  "normalize_accents (normalize_accents s) = normalize_accents s"
  by (simp add: normalize_accents_map normalize_cp_idem)

section \<open>Evaluating concrete runs\<close>

lemma of_ascii_Nil: "of_ascii [] = []"
  by (simp add: of_ascii_def)

lemma of_ascii_Cons: "of_ascii (c # cs) = of_char c # of_ascii cs"
  by (simp add: of_ascii_def)

text \<open>The definitions a concrete run unfolds.\<close>

lemmas run_simps =
  of_ascii_Nil of_ascii_Cons py_strip_def py_isspace_def py_getitem_def py_slice_to_def
  trim_trailing_space_def py_replace_def header_row_def corpus_file_path_def
  plain_library_def space_tokens_def ascii_lower_def

text \<open>The token loop in closed form: with no token it leaves its state as it found it.\<close>

lemma token_loop_map:
  "token_loop ld tokens (linked, u) =
     (if tokens = [] then (linked, u)
      else (linked @ map (apply_rules ld) tokens,
            Bound (map normalize_accents (linked @ map (apply_rules ld) tokens))))"
  by (induction tokens arbitrary: linked u) (simp_all add: Let_def)

section \<open>The trailing-space trim\<close>

text \<open>A corpus line whose text ends in a one-character token.\<close>

definition punctuated_line :: pystr where
  "punctuated_line = of_ascii ''001;Do .;'' @ [10]"

text \<open>
  C8. In both corpus transformers the trim reads the second-to-last character of the
  joined text without a check. A joined text of two characters or more whose
  second-to-last character is a space loses that character: the result is
  \<open>text[:-2]\<close> followed by the last character. A joined text of length 0 or 1
  makes the index access fail with IndexError. The rule-based line body (for a line
  with a token) and the vocabulary-based line body apply the trim to the joined
  tokens and return its IndexError as their own result: nothing catches it.
\<close>

theorem trailing_space_trim:
  "(2 \<le> length text \<and> text ! (length text - 2) = 32 \<longrightarrow>
      trim_trailing_space text = Inr (take (length text - 2) text @ [last text])) \<and>
   (length short < 2 \<longrightarrow> trim_trailing_space short = Inl IndexError) \<and>
   (py_getitem (py_split 59 (py_strip line)) 1 = Inr txt \<and> tokenise L txt \<noteq> [] \<longrightarrow>
      rule_process_line L linked_dict u line =
        (case trim_trailing_space
                (py_join [32] (map (\<lambda>t. normalize_accents (apply_rules linked_dict t))
                   (tokenise L txt))) of
           Inl e \<Rightarrow> Inl e
         | Inr linked_text \<Rightarrow>
             Inr (linked_text,
                  Bound (map (\<lambda>t. normalize_accents (apply_rules linked_dict t))
                    (tokenise L txt))))) \<and>
   (py_getitem (py_split 59 (py_strip line)) 1 = Inr txt \<longrightarrow>
      vocab_process_line L (Bound (Some d)) width line =
        (case trim_trailing_space
                (py_join [32] (map (\<lambda>t. case d (lower L t) of
                                           Some (trad, pos) \<Rightarrow> trad
                                         | None \<Rightarrow> normalize_accents t)
                   (tokenise L txt))) of
           Inl e \<Rightarrow> Inl e
         | Inr modified_text \<Rightarrow> Inr (fill L modified_text width)))"
proof (intro conjI impI)
  assume "2 \<le> length text \<and> text ! (length text - 2) = 32"
  then have a: "2 \<le> length text" and b: "text ! (length text - 2) = 32" by simp_all
  from a have "text \<noteq> []" by auto
  then have l: "text ! nat (int (length text) - 1) = last text"
    by (simp add: last_conv_nth nat_diff_distrib')
  from a have i: "nat (int (length text) - 2) = length text - 2"
    by (simp add: nat_diff_distrib')
  show "trim_trailing_space text = Inr (take (length text - 2) text @ [last text])"
    using a b l i \<open>text \<noteq> []\<close>
    by (simp add: trim_trailing_space_def py_getitem_def py_slice_to_def)
next
  assume "length short < 2"
  then show "trim_trailing_space short = Inl IndexError"
    by (simp add: trim_trailing_space_def py_getitem_def)
next
  assume "py_getitem (py_split 59 (py_strip line)) 1 = Inr txt \<and> tokenise L txt \<noteq> []"
  then show "rule_process_line L linked_dict u line =
        (case trim_trailing_space
                (py_join [32] (map (\<lambda>t. normalize_accents (apply_rules linked_dict t))
                   (tokenise L txt))) of
           Inl e \<Rightarrow> Inl e
         | Inr linked_text \<Rightarrow>
             Inr (linked_text,
                  Bound (map (\<lambda>t. normalize_accents (apply_rules linked_dict t))
                    (tokenise L txt))))"
    by (simp add: rule_process_line_def token_loop_map o_def Let_def)
next
  assume t: "py_getitem (py_split 59 (py_strip line)) 1 = Inr txt"
  have tr: "translate_tokens L (Bound (Some d)) ts =
      Inr (map (\<lambda>t. case d (lower L t) of Some (trad, pos) \<Rightarrow> Tuple trad pos | None \<Rightarrow> Plain t) ts)"
    for ts
    by (induction ts) (simp_all add: translate_token_def split: option.split)
  have un: "map unaccent (zip ts (map (\<lambda>t. case d (lower L t) of Some (trad, pos) \<Rightarrow> Tuple trad pos | None \<Rightarrow> Plain t) ts)) =
      map (\<lambda>t. case d (lower L t) of Some (trad, pos) \<Rightarrow> trad | None \<Rightarrow> normalize_accents t) ts"
    for ts
    by (induction ts) (simp_all add: unaccent_def split: option.split)
  show "vocab_process_line L (Bound (Some d)) width line =
        (case trim_trailing_space
                (py_join [32] (map (\<lambda>t. case d (lower L t) of
                                           Some (trad, pos) \<Rightarrow> trad
                                         | None \<Rightarrow> normalize_accents t)
                   (tokenise L txt))) of
           Inl e \<Rightarrow> Inl e
         | Inr modified_text \<Rightarrow> Inr (fill L modified_text width))"
    by (simp add: vocab_process_line_def t tr un Let_def)
qed

theorem trailing_space_trim_witness:
  "trim_trailing_space (of_ascii ''Do .'') = Inr (of_ascii ''Do.'') \<and>
   trim_trailing_space (of_ascii ''.'') = Inl IndexError \<and>
   rule_process_line plain_library [] Unbound punctuated_line =
     Inr (of_ascii ''Do.'', Bound [of_ascii ''Do'', of_ascii ''.'']) \<and>
   vocab_process_line plain_library (Bound (Some Map.empty)) 50 punctuated_line =
     Inr (of_ascii ''Do.'')"
proof -
  have h1: "2 \<le> length (of_ascii ''Do .'') \<and>
      of_ascii ''Do .'' ! (length (of_ascii ''Do .'') - 2) = 32"
    by (simp add: run_simps)
  have h2: "length (of_ascii ''.'') < 2"
    by (simp add: run_simps)
  have h3: "py_getitem (py_split 59 (py_strip punctuated_line)) 1 = Inr (of_ascii ''Do .'') \<and>
      tokenise plain_library (of_ascii ''Do .'') \<noteq> []"
    by (simp add: run_simps punctuated_line_def)
  show ?thesis
    using trailing_space_trim [of "of_ascii ''Do .''" "of_ascii ''.''" punctuated_line
      "of_ascii ''Do .''" plain_library "[]" Unbound Map.empty 50] h1 h2 h3
    by (simp add: run_simps punctuated_line_def normalize_accents_map normalize_cp_def sub_cp_def)
qed

section \<open>The vocabulary argument of \<open>process_corpus\<close>\<close>

text \<open>
  C9. \<open>translate_token\<close> reads the module's global \<open>vocab_language\<close> and
  \<open>process_corpus\<close> never reads its parameter of that name: for every corpus, two
  values of the argument give the same result, rows and faults alike.
\<close>

theorem vocab_argument_unused:
  "vocab_process_corpus L g fs corpus_path v1 column_width =
   vocab_process_corpus L g fs corpus_path v2 column_width"
  by (simp add: vocab_process_corpus_def)

section \<open>Files of the concrete runs\<close>

text \<open>
  A vocabulary file of one row, a rule file with the one rule \<open>frai\<close> to \<open>frei\<close>
  seen 15 times, and a corpus of the one line \<^verbatim>\<open>001;Min Frai isch do;\<close>.
\<close>

definition vocabulary_file :: pystr where
  "vocabulary_file = of_ascii ''vocabulary.txt''"

definition vocabulary_line :: pystr where
  "vocabulary_line =
     of_ascii ''zu'' @ [9] @ of_ascii ''ADP'' @ [9] @ of_ascii ''ze'' @ [9] @ of_ascii ''zu'' @ [10]"

definition corpus_line :: pystr where
  "corpus_line = of_ascii ''001;Min Frai isch do;'' @ [10]"

definition unsupported_run_files :: files where
  "unsupported_run_files =
     [vocabulary_file \<mapsto> [vocabulary_line], corpus_file_path \<mapsto> [corpus_line]]"

lemmas file_simps = vocabulary_file_def vocabulary_line_def corpus_line_def

definition rules_file :: pystr where
  "rules_file = of_ascii ''rules.txt''"

definition frai_rule_line :: pystr where
  "frai_rule_line = of_ascii ''frai'' @ [9] @ of_ascii ''frei'' @ [9] @ of_ascii ''15'' @ [10]"

definition scenario_files :: files where
  "scenario_files = [rules_file \<mapsto> [frai_rule_line], corpus_file_path \<mapsto> [corpus_line]]"

lemmas normalize_simps = normalize_accents_map normalize_cp_def sub_cp_def

text \<open>Two corpora with the same second line, whose text field is empty.\<close>

definition first_corpus :: "pystr list" where
  "first_corpus = [of_ascii ''001;ab cd;'' @ [10], of_ascii ''002;;'' @ [10]]"

definition second_corpus :: "pystr list" where
  "second_corpus = [of_ascii ''001;xy zz;'' @ [10], of_ascii ''002;;'' @ [10]]"

lemma frai_rule_parsed:
  "parse_rule frai_rule_line = Inr (of_ascii ''frai'', of_ascii ''frei'', 15)"
  by (simp add: parse_rule_def frai_rule_line_def run_simps py_int_def is_digit_def digits_value_def)

lemma iterates_singleton:
  assumes "iterates_sets f"
  shows "f [x] = [x]"
proof -
  from assms have d: "distinct (f [x])" and s: "set (f [x]) = {x}"
    by (simp_all add: iterates_sets_def)
  from distinct_card [OF d] s have "length (f [x]) = 1"
    by simp
  then obtain y where "f [x] = [y]"
    by (cases "f [x]") auto
  with s show ?thesis by simp
qed

lemma plain_iterates: "iterates_sets (set_iter plain_library)"
  by (simp add: iterates_sets_def plain_library_def)

section \<open>A table file that does not exist\<close>

text \<open>
  C5. When the table file does not exist, \<open>create_dictionary\<close> prints the message
  and returns an empty table, and \<open>create_vocabulary\<close>, which opens the file outside
  any \<open>try\<close>, raises FileNotFoundError: the vocabulary-based run ends there.
\<close>

theorem missing_table_file:
  "fs path = None \<longrightarrow>
     create_dictionary L fs path = Inr ([not_found_message path], []) \<and>
     create_vocabulary fs path language = Inl FileNotFoundError"
  by (simp add: create_dictionary_def create_vocabulary_def)

theorem missing_table_file_witness:
  "rule_based_main plain_library [corpus_file_path \<mapsto> [corpus_line]] rules_file =
     Inr ([not_found_message rules_file],
          [header_row, [Num 1, Str (of_ascii ''Min Frai isch do'')]]) \<and>
   vocabulary_based_main plain_library [corpus_file_path \<mapsto> [corpus_line]] vocabulary_file
     (of_ascii ''de'') = Inl FileNotFoundError"
  using
    missing_table_file [of "[corpus_file_path \<mapsto> [corpus_line]]" rules_file plain_library
      "of_ascii ''de''"]
    missing_table_file [of "[corpus_file_path \<mapsto> [corpus_line]]" vocabulary_file
      plain_library "of_ascii ''de''"]
  by (simp add: rule_based_main_def vocabulary_based_main_def rule_process_corpus_def
      rule_process_line_def file_simps rules_file_def run_simps normalize_simps Let_def)

section \<open>An unsupported language\<close>

lemma unsupported_language_table:
  "create_vocabulary unsupported_run_files vocabulary_file (of_ascii ''xx'') =
     Inr ([unsupported_message], None)"
  by (simp add: create_vocabulary_def unsupported_run_files_def file_simps run_simps
      select_translations_def)

lemma none_table_lookup:
  "vocab_process_corpus plain_library (Bound None) unsupported_run_files corpus_file_path v 50 =
     Inl AttributeError"
  by (simp add: vocab_process_corpus_def unsupported_run_files_def file_simps run_simps
      vocab_process_line_def translate_token_def)

lemma unsupported_language_empty_file:
  "create_vocabulary [vocabulary_file \<mapsto> []] vocabulary_file (of_ascii ''xx'') =
     Inr ([], Some Map.empty)"
  by (simp add: create_vocabulary_def)

text \<open>
  C1. With a language that is neither \<open>de\<close> nor \<open>ltz\<close> and a vocabulary file of
  one row, \<open>create_vocabulary\<close> prints its message and returns None. The program
  binds the global \<open>vocab_language\<close> to that None, and the first token of the
  corpus makes \<open>translate_token\<close> call \<open>get\<close> on None: the run ends with
  AttributeError and writes no row.
\<close>

theorem unsupported_language_run:
  "create_vocabulary unsupported_run_files vocabulary_file (of_ascii ''xx'') =
     Inr ([unsupported_message], None) \<and>
   vocabulary_based_main plain_library unsupported_run_files vocabulary_file (of_ascii ''xx'') =
     Inl AttributeError"
  using unsupported_language_table none_table_lookup
  by (simp add: vocabulary_based_main_def)

section \<open>A line with no token\<close>

text \<open>
  C6. In the rule-based \<open>process_corpus\<close> a line with no token leaves
  \<open>unaccented_tokens\<close> as the line before left it. The two corpora agree on their
  second line and the rows written for it differ: each repeats the text of the first
  line. When the first line of a corpus has no token, the name is not bound yet and
  the run ends with UnboundLocalError.
\<close>

theorem empty_line_repeats_previous:
  "rule_process_corpus plain_library [corpus_file_path \<mapsto> first_corpus] corpus_file_path [] =
     Inr [header_row, [Num 1, Str (of_ascii ''ab cd'')], [Num 2, Str (of_ascii ''ab cd'')]] \<and>
   rule_process_corpus plain_library [corpus_file_path \<mapsto> second_corpus] corpus_file_path [] =
     Inr [header_row, [Num 1, Str (of_ascii ''xy zz'')], [Num 2, Str (of_ascii ''xy zz'')]] \<and>
   first_corpus ! 1 = second_corpus ! 1 \<and>
   rule_process_corpus plain_library [corpus_file_path \<mapsto> [of_ascii ''002;;'' @ [10]]]
     corpus_file_path [] = Inl UnboundLocalError"
  by (simp add: rule_process_corpus_def rule_process_line_def first_corpus_def second_corpus_def
      run_simps normalize_simps Let_def)

section \<open>The end-to-end scenario\<close>

text \<open>
  C3. The rule file holds the one row \<open>frai\<close>, \<open>frei\<close>, 15 and the corpus the one
  line \<^verbatim>\<open>001;Min Frai isch do;\<close>, which the tokeniser cuts into \<open>Min\<close>,
  \<open>Frai\<close>, \<open>isch\<close>, \<open>do\<close>. The pattern \<open>(frai)\<close> is matched as it is written,
  so it does not match the capitalised token \<open>Frai\<close>: the program prints nothing and
  writes the header and the row \<open>(1, Min Frai isch do)\<close>.
\<close>

theorem scenario_output:
  assumes "iterates_sets (set_iter L)"
    and "tokenise L (of_ascii ''Min Frai isch do'') =
      [of_ascii ''Min'', of_ascii ''Frai'', of_ascii ''isch'', of_ascii ''do'']"
    and "fs dictionary_file_path = Some [frai_rule_line]"
    and "fs corpus_file_path = Some [corpus_line]"
  shows "rule_based_main L fs dictionary_file_path =
     Inr ([], [header_row, [Num 1, Str (of_ascii ''Min Frai isch do'')]])"
proof -
  have d: "create_dictionary L fs dictionary_file_path =
      Inr ([], [(of_ascii ''frei'', [make_pattern [of_ascii ''frai'']])])"
    using assms(3) iterates_singleton [OF assms(1)]
    by (simp add: create_dictionary_def frai_rule_parsed link_patterns_def)
  have "rule_process_corpus L fs corpus_file_path
      [(of_ascii ''frei'', [make_pattern [of_ascii ''frai'']])] =
      Inr [header_row, [Num 1, Str (of_ascii ''Min Frai isch do'')]]"
    using assms(2,4)
    by (simp add: rule_process_corpus_def rule_process_line_def corpus_line_def
        make_pattern_def re_search_def pattern_alternatives_def run_simps normalize_simps
        Let_def)
  with d show ?thesis
    by (simp add: rule_based_main_def)
qed

theorem scenario_output_witness:
  "rule_based_main plain_library scenario_files rules_file =
     Inr ([], [header_row, [Num 1, Str (of_ascii ''Min Frai isch do'')]])"
proof -
  have "tokenise plain_library (of_ascii ''Min Frai isch do'') =
      [of_ascii ''Min'', of_ascii ''Frai'', of_ascii ''isch'', of_ascii ''do'']"
    by (simp add: run_simps)
  moreover have "scenario_files rules_file = Some [frai_rule_line]"
    by (simp add: scenario_files_def rules_file_def run_simps)
  moreover have "scenario_files corpus_file_path = Some [corpus_line]"
    by (simp add: scenario_files_def)
  ultimately show ?thesis
    using plain_iterates by (rule scenario_output [rotated])
qed

text \<open>The row of the scenario as the specification expects it is not the row written.\<close>

theorem scenario_counterexample:
  "rule_based_main plain_library scenario_files rules_file \<noteq>
     Inr ([], [header_row, [Num 1, Str (of_ascii ''Min frei isch do'')]])"
  by (simp add: rule_based_main_def create_dictionary_def scenario_files_def rules_file_def
      frai_rule_parsed link_patterns_def rule_process_corpus_def rule_process_line_def
      corpus_line_def make_pattern_def re_search_def pattern_alternatives_def
      run_simps normalize_simps Let_def)

section \<open>The table \<open>create_dictionary\<close> builds\<close>

text \<open>
  The links stored under a target link, and the links a rule file gives a target link:
  those of its rows with that target and a count of at least 10.
\<close>

definition links_of :: "dictionary \<Rightarrow> pystr \<Rightarrow> pystr list" where
  "links_of d t = (case map_of d t of None \<Rightarrow> [] | Some s \<Rightarrow> s)"

definition qualifying :: "pystr list \<Rightarrow> pystr \<Rightarrow> pystr set" where
  "qualifying lines t =
     {link. \<exists>line \<in> set lines. \<exists>n. parse_rule line = Inr (link, t, n) \<and> 10 \<le> n}"

lemma map_of_dictionary_add:
  "map_of (dictionary_add d t l) t' =
     (if t' = t then Some (set_add (links_of d t) l) else map_of d t')"
  by (induction d t l rule: dictionary_add.induct) (auto simp: links_of_def set_add_def)

lemma links_of_dictionary_add:
  "links_of (dictionary_add d t l) t' =
     (if t' = t then set_add (links_of d t) l else links_of d t')"
  by (simp add: links_of_def map_of_dictionary_add)

lemma set_set_add: "set (set_add s x) = insert x (set s)"
  by (auto simp: set_add_def)

lemma distinct_set_add: "distinct s \<Longrightarrow> distinct (set_add s x)"
  by (simp add: set_add_def)

lemma qualifying_Cons:
  "qualifying (line # rest) t =
     (case parse_rule line of
        Inl e \<Rightarrow> {}
      | Inr (link, t', n) \<Rightarrow> if t' = t \<and> 10 \<le> n then {link} else {}) \<union> qualifying rest t"
  by (auto simp: qualifying_def split: sum.splits)

lemma read_rules_links:
  "read_rules d lines = Inr d' \<Longrightarrow>
     set (links_of d' t) = set (links_of d t) \<union> qualifying lines t"
proof (induction lines arbitrary: d)
  case Nil
  then show ?case by (simp add: qualifying_def)
next
  case (Cons line rest)
  then obtain link t' n where p: "parse_rule line = Inr (link, t', n)"
    by (cases "parse_rule line") auto
  with Cons.prems have
    r: "read_rules (if 10 \<le> n then dictionary_add d t' link else d) rest = Inr d'"
    by simp
  show ?case
    unfolding Cons.IH [OF r] qualifying_Cons p
    by (auto simp: links_of_dictionary_add set_set_add)
qed

lemma read_rules_distinct:
  "read_rules d lines = Inr d' \<Longrightarrow> (\<And>t. distinct (links_of d t)) \<Longrightarrow>
     distinct (links_of d' t)"
proof (induction lines arbitrary: d)
  case Nil
  then show ?case by simp
next
  case (Cons line rest)
  then obtain link t' n where p: "parse_rule line = Inr (link, t', n)"
    by (cases "parse_rule line") auto
  with Cons.prems have
    r: "read_rules (if 10 \<le> n then dictionary_add d t' link else d) rest = Inr d'"
    by simp
  show ?case
    by (rule Cons.IH [OF r])
      (simp add: links_of_dictionary_add distinct_set_add Cons.prems(2))
qed

lemma read_rules_total:
  "(\<forall>line \<in> set lines. \<exists>r. parse_rule line = Inr r) \<Longrightarrow> \<exists>d'. read_rules d lines = Inr d'"
  by (induction lines arbitrary: d) (auto split: sum.splits prod.splits)

lemma read_rules_skip:
  "parse_rule line = Inr (link, t, n) \<Longrightarrow> n < 10 \<Longrightarrow>
     read_rules d (before @ line # after) = read_rules d (before @ after)"
  by (induction before arbitrary: d) (auto split: sum.splits prod.splits)

lemma map_of_link_patterns:
  "map_of (link_patterns iter d) t =
     map_option (\<lambda>v. [make_pattern (iter v)]) (map_of d t)"
  by (induction d) (auto simp: link_patterns_def)

lemma link_patterns_entry:
  "(t, ps) \<in> set (link_patterns iter d) \<Longrightarrow> \<exists>v. (t, v) \<in> set d \<and> ps = [make_pattern (iter v)]"
  by (auto simp: link_patterns_def)

lemma dictionary_add_keys:
  "distinct (map fst d) \<Longrightarrow> distinct (map fst (dictionary_add d t l))"
proof (induction d t l rule: dictionary_add.induct)
  case (1 t l)
  then show ?case by simp
next
  case (2 k s d t l)
  have "fst ` set (dictionary_add d t l) \<subseteq> insert t (fst ` set d)"
    by (induction d t l rule: dictionary_add.induct) auto
  with 2 show ?case by auto
qed

lemma read_rules_keys:
  "read_rules d lines = Inr d' \<Longrightarrow> distinct (map fst d) \<Longrightarrow> distinct (map fst d')"
proof (induction lines arbitrary: d)
  case Nil
  then show ?case by simp
next
  case (Cons line rest)
  then obtain link t' n where p: "parse_rule line = Inr (link, t', n)"
    by (cases "parse_rule line") auto
  with Cons.prems have
    r: "read_rules (if 10 \<le> n then dictionary_add d t' link else d) rest = Inr d'"
    by simp
  show ?case
    by (rule Cons.IH [OF r]) (simp add: dictionary_add_keys Cons.prems(2))
qed

text \<open>What a successful read of the rule file leaves under a target link.\<close>

lemma read_rules_table:
  assumes "read_rules [] lines = Inr d"
  shows "set (links_of d t) = qualifying lines t" "distinct (links_of d t)"
    "distinct (map fst d)"
proof -
  show "set (links_of d t) = qualifying lines t"
    using read_rules_links [OF assms, of t] by (simp add: links_of_def)
  show "distinct (links_of d t)"
    by (rule read_rules_distinct [OF assms]) (simp add: links_of_def)
  show "distinct (map fst d)"
    by (rule read_rules_keys [OF assms]) simp
qed

text \<open>
  Rule files for concrete runs: the rows \<open>(e, a-umlaut, 12)\<close> and
  \<open>(e, a-umlaut, 5)\<close>, and the rows \<open>(b, x, 10)\<close> and \<open>(a, x, 10)\<close>.
\<close>

definition line_e12 :: pystr where
  "line_e12 = [101, 9, 228, 9] @ of_ascii ''12'' @ [10]"

definition line_e5 :: pystr where
  "line_e5 = [101, 9, 228, 9] @ of_ascii ''5'' @ [10]"

definition line_b :: pystr where
  "line_b = of_ascii ''b'' @ [9] @ of_ascii ''x'' @ [9] @ of_ascii ''10'' @ [10]"

definition line_a :: pystr where
  "line_a = of_ascii ''a'' @ [9] @ of_ascii ''x'' @ [9] @ of_ascii ''10'' @ [10]"

lemmas parse_simps = parse_rule_def py_int_def is_digit_def digits_value_def

lemma example_rules_parsed:
  "parse_rule line_e12 = Inr ([101], [228], 12)"
  "parse_rule line_e5 = Inr ([101], [228], 5)"
  "parse_rule line_b = Inr (of_ascii ''b'', of_ascii ''x'', 10)"
  "parse_rule line_a = Inr (of_ascii ''a'', of_ascii ''x'', 10)"
  by (simp_all add: line_e12_def line_e5_def line_b_def line_a_def parse_simps run_simps)

lemma reversing_iterates: "iterates_sets (set_iter reversing_library)"
  by (simp add: iterates_sets_def reversing_library_def plain_library_def)

text \<open>
  A joined text followed by the separator is each element followed by the separator,
  and an element of the list stands in the joined text between separators or the ends
  of the text.
\<close>

lemma py_join_terminated:
  "alts \<noteq> [] \<Longrightarrow> py_join sep alts @ sep = concat (map (\<lambda>a. a @ sep) alts)"
  by (induction sep alts rule: py_join.induct) simp_all

lemma py_join_holds:
  "x \<in> set alts \<Longrightarrow>
     \<exists>before after. py_join [c] alts = before @ x @ after \<and>
       (before = [] \<or> last before = c) \<and> (after = [] \<or> hd after = c)"
proof (induction "[c]" alts rule: py_join.induct)
  case 1
  then show ?case by simp
next
  case (2 y)
  then have "py_join [c] [y] = [] @ x @ []" by simp
  then show ?case by blast
next
  case (3 y z zs)
  show ?case
  proof (cases "x = y")
    case True
    then have "py_join [c] (y # z # zs) = [] @ x @ (c # py_join [c] (z # zs))"
      by simp
    moreover have "hd (c # py_join [c] (z # zs)) = c" by simp
    ultimately show ?thesis by blast
  next
    case False
    with "3.prems" have "x \<in> set (z # zs)" by simp
    from "3.hyps" [OF this] obtain before after where
      j: "py_join [c] (z # zs) = before @ x @ after"
        "before = [] \<or> last before = c" "after = [] \<or> hd after = c"
      by blast
    have "py_join [c] (y # z # zs) = (y @ c # before) @ x @ after"
      using j(1) by simp
    moreover have "last (y @ c # before) = c"
      using j(2) by auto
    ultimately show ?thesis using j(3) by blast
  qed
qed

text \<open>
  The sets of a table that was read are not empty, so its keys are the target forms
  that have a row of count 10 or more.
\<close>

lemma read_rules_nonempty:
  "read_rules d lines = Inr d' \<Longrightarrow> (\<And>t s. map_of d t = Some s \<Longrightarrow> s \<noteq> []) \<Longrightarrow>
     map_of d' t = Some s \<Longrightarrow> s \<noteq> []"
proof (induction lines arbitrary: d)
  case Nil
  then show ?case by simp
next
  case (Cons line rest)
  then obtain link t' n where p: "parse_rule line = Inr (link, t', n)"
    by (cases "parse_rule line") auto
  with Cons.prems have
    r: "read_rules (if 10 \<le> n then dictionary_add d t' link else d) rest = Inr d'"
    by simp
  show ?case
  proof (rule Cons.IH [OF r _ Cons.prems(3)])
    fix u s'
    assume "map_of (if 10 \<le> n then dictionary_add d t' link else d) u = Some s'"
    then show "s' \<noteq> []"
      using Cons.prems(2) by (auto simp: map_of_dictionary_add set_add_def split: if_splits)
  qed
qed

lemma read_rules_targets:
  assumes "read_rules [] lines = Inr d"
  shows "fst ` set d = {t. qualifying lines t \<noteq> {}}"
proof (rule set_eqI)
  fix t
  show "t \<in> fst ` set d \<longleftrightarrow> t \<in> {t. qualifying lines t \<noteq> {}}"
  proof (cases "map_of d t")
    case None
    then have "links_of d t = []" by (simp add: links_of_def)
    with read_rules_table(1) [OF assms, of t] have "qualifying lines t = {}" by simp
    moreover from None have "t \<notin> fst ` set d" by (simp add: map_of_eq_None_iff)
    ultimately show ?thesis by simp
  next
    case (Some s)
    have "s \<noteq> []"
      by (rule read_rules_nonempty [OF assms _ Some]) simp
    moreover from Some have "links_of d t = s" by (simp add: links_of_def)
    ultimately have "qualifying lines t \<noteq> {}"
      using read_rules_table(1) [OF assms, of t] by auto
    moreover from map_of_SomeD [OF Some] have "t \<in> fst ` set d"
      by force
    ultimately show ?thesis by simp
  qed
qed

lemma link_patterns_keys: "map fst (link_patterns iter d) = map fst d"
  by (induction d) (auto simp: link_patterns_def)

text \<open>
  C7. A row of the rule file whose count is at least 10 puts its source form among
  the alternatives of the pattern stored under its target form: when every line of
  the file is a row, the table is built, and the pattern under the target form is an
  opening parenthesis, a text that holds the source form between bars or the ends
  of that text, and a closing parenthesis. A row whose count is below 10 contributes
  nothing: the table, or the fault, is the one of the file without that row.
\<close>

theorem rule_count_threshold:
  assumes "iterates_sets (set_iter L)"
  shows
    "(fs path = Some lines \<and> (\<forall>l \<in> set lines. \<exists>r. parse_rule l = Inr r) \<and>
      line \<in> set lines \<and> parse_rule line = Inr (link, target, n) \<and> 10 \<le> n \<longrightarrow>
        (\<exists>printed tbl alts before after.
           create_dictionary L fs path = Inr (printed, tbl) \<and>
           map_of tbl target = Some [make_pattern alts] \<and> link \<in> set alts \<and>
           make_pattern alts = [40] @ before @ link @ after @ [41] \<and>
           (before = [] \<or> last before = 124) \<and> (after = [] \<or> hd after = 124))) \<and>
     (parse_rule line' = Inr (link', target', n') \<and> n' < 10 \<longrightarrow>
        create_dictionary L (fs'(path' \<mapsto> before' @ line' # after')) path' =
        create_dictionary L (fs'(path' \<mapsto> before' @ after')) path')"
proof (intro conjI impI)
  assume a: "fs path = Some lines \<and> (\<forall>l \<in> set lines. \<exists>r. parse_rule l = Inr r) \<and>
      line \<in> set lines \<and> parse_rule line = Inr (link, target, n) \<and> 10 \<le> n"
  then obtain d where d: "read_rules [] lines = Inr d"
    using read_rules_total [of lines "[]"] by blast
  from a have "link \<in> qualifying lines target"
    by (auto simp: qualifying_def)
  then have l: "link \<in> set (links_of d target)"
    by (simp add: read_rules_table(1) [OF d])
  then obtain s where s: "map_of d target = Some s"
    by (cases "map_of d target") (auto simp: links_of_def)
  with l have ls: "link \<in> set s" "distinct s"
    using read_rules_table(2) [OF d, of target] by (simp_all add: links_of_def)
  from assms ls(2) have "set (set_iter L s) = set s"
    by (simp add: iterates_sets_def)
  with ls(1) have m: "link \<in> set (set_iter L s)" by simp
  from py_join_holds [OF m, of 124] obtain before after where
    j: "py_join [124] (set_iter L s) = before @ link @ after"
      "before = [] \<or> last before = 124" "after = [] \<or> hd after = 124"
    by blast
  have p: "make_pattern (set_iter L s) = [40] @ before @ link @ after @ [41]"
    using j(1) by (simp add: make_pattern_def)
  have c: "create_dictionary L fs path = Inr ([], link_patterns (set_iter L) d)"
    using a d by (simp add: create_dictionary_def)
  have t: "map_of (link_patterns (set_iter L) d) target = Some [make_pattern (set_iter L s)]"
    by (simp add: map_of_link_patterns s)
  show "\<exists>printed tbl alts before after.
           create_dictionary L fs path = Inr (printed, tbl) \<and>
           map_of tbl target = Some [make_pattern alts] \<and> link \<in> set alts \<and>
           make_pattern alts = [40] @ before @ link @ after @ [41] \<and>
           (before = [] \<or> last before = 124) \<and> (after = [] \<or> hd after = 124)"
    by (intro exI conjI, rule c, rule t, rule m, rule p, rule j(2), rule j(3))
next
  assume "parse_rule line' = Inr (link', target', n') \<and> n' < 10"
  then show "create_dictionary L (fs'(path' \<mapsto> before' @ line' # after')) path' =
        create_dictionary L (fs'(path' \<mapsto> before' @ after')) path'"
    by (simp add: create_dictionary_def read_rules_skip [of line' link' target' n'])
qed

theorem rule_count_threshold_witness:
  "(\<exists>printed tbl alts before after.
      create_dictionary plain_library [rules_file \<mapsto> [line_e12, line_e5]] rules_file =
        Inr (printed, tbl) \<and>
      map_of tbl [228] = Some [make_pattern alts] \<and> [101] \<in> set alts \<and>
      make_pattern alts = [40] @ before @ [101] @ after @ [41] \<and>
      (before = [] \<or> last before = 124) \<and> (after = [] \<or> hd after = 124)) \<and>
   create_dictionary plain_library [rules_file \<mapsto> [line_e12, line_e5]] rules_file =
   create_dictionary plain_library [rules_file \<mapsto> [line_e12]] rules_file \<and>
   create_dictionary plain_library [rules_file \<mapsto> [line_e12, line_e5]] rules_file =
     Inr ([], [([228], [of_ascii ''(e)''])])"
proof -
  note t = rule_count_threshold [OF plain_iterates,
      of "[rules_file \<mapsto> [line_e12, line_e5]]" rules_file "[line_e12, line_e5]" line_e12
        "[101]" "[228]" 12 line_e5 "[101]" "[228]" 5 Map.empty rules_file "[line_e12]" "[]"]
  have "\<exists>printed tbl alts before after.
      create_dictionary plain_library [rules_file \<mapsto> [line_e12, line_e5]] rules_file =
        Inr (printed, tbl) \<and>
      map_of tbl [228] = Some [make_pattern alts] \<and> [101] \<in> set alts \<and>
      make_pattern alts = [40] @ before @ [101] @ after @ [41] \<and>
      (before = [] \<or> last before = 124) \<and> (after = [] \<or> hd after = 124)"
    using t [THEN conjunct1] by (simp add: example_rules_parsed)
  moreover have
    "create_dictionary plain_library [rules_file \<mapsto> [line_e12, line_e5]] rules_file =
     create_dictionary plain_library [rules_file \<mapsto> [line_e12]] rules_file"
    using t [THEN conjunct2] by (simp add: example_rules_parsed)
  moreover have
    "create_dictionary plain_library [rules_file \<mapsto> [line_e12, line_e5]] rules_file =
     Inr ([], [([228], [of_ascii ''(e)''])])"
    by (simp add: create_dictionary_def example_rules_parsed link_patterns_def
        plain_library_def make_pattern_def run_simps)
  ultimately show ?thesis by (intro conjI)
qed

section \<open>The order of the alternatives\<close>

text \<open>
  C4. When every line of the rule file is a row, the table has one entry for each
  target form that has a row of count 10 or more, and no other entry. The pattern of
  an entry is an opening parenthesis, the alternatives joined by bars, and a closing
  parenthesis. The alternatives are the source forms of the rows with that target
  form and a count of at least 10, each once, in the order in which the set that
  holds them is iterated, not in the order of the rows.
\<close>

theorem pattern_alternatives_are_the_set:
  assumes "iterates_sets (set_iter L)"
    and "fs path = Some lines"
    and "\<forall>l \<in> set lines. \<exists>r. parse_rule l = Inr r"
  shows "\<exists>tbl. create_dictionary L fs path = Inr ([], tbl) \<and>
     distinct (map fst tbl) \<and>
     fst ` set tbl =
       {target. \<exists>line \<in> set lines. \<exists>link n.
                  parse_rule line = Inr (link, target, n) \<and> 10 \<le> n} \<and>
     (\<forall>(target, patterns) \<in> set tbl.
        \<exists>alts body s.
          patterns = [[40] @ body @ [41]] \<and>
          body @ [124] = concat (map (\<lambda>a. a @ [124]) alts) \<and>
          alts = set_iter L s \<and> distinct s \<and> set s = set alts \<and>
          distinct alts \<and>
          set alts = {link. \<exists>line \<in> set lines. \<exists>n.
                       parse_rule line = Inr (link, target, n) \<and> 10 \<le> n})"
proof -
  from assms(3) obtain d where d: "read_rules [] lines = Inr d"
    using read_rules_total [of lines "[]"] by blast
  let ?tbl = "link_patterns (set_iter L) d"
  have c: "create_dictionary L fs path = Inr ([], ?tbl)"
    using assms(2) d by (simp add: create_dictionary_def)
  have k: "distinct (map fst ?tbl)"
    by (simp add: link_patterns_keys read_rules_table(3) [OF d])
  have "fst ` set ?tbl = fst ` set d"
    using link_patterns_keys [of "set_iter L" d] by (metis set_map)
  also have "\<dots> = {t. qualifying lines t \<noteq> {}}"
    by (rule read_rules_targets [OF d])
  also have "\<dots> = {target. \<exists>line \<in> set lines. \<exists>link n.
                  parse_rule line = Inr (link, target, n) \<and> 10 \<le> n}"
    by (auto simp: qualifying_def)
  finally have f: "fst ` set ?tbl = {target. \<exists>line \<in> set lines. \<exists>link n.
                  parse_rule line = Inr (link, target, n) \<and> 10 \<le> n}" .
  have e: "\<exists>alts body s.
          patterns = [[40] @ body @ [41]] \<and>
          body @ [124] = concat (map (\<lambda>a. a @ [124]) alts) \<and>
          alts = set_iter L s \<and> distinct s \<and> set s = set alts \<and>
          distinct alts \<and>
          set alts = {link. \<exists>line \<in> set lines. \<exists>n.
                       parse_rule line = Inr (link, target, n) \<and> 10 \<le> n}"
    if "(target, patterns) \<in> set ?tbl" for target patterns
  proof -
    from link_patterns_entry [OF that] obtain v where
      v: "(target, v) \<in> set d" "patterns = [make_pattern (set_iter L v)]"
      by blast
    from v(1) read_rules_table(3) [OF d] have m: "map_of d target = Some v"
      by simp
    then have lv: "links_of d target = v"
      by (simp add: links_of_def)
    have ne: "v \<noteq> []"
      by (rule read_rules_nonempty [OF d _ m]) simp
    from read_rules_table(2) [OF d, of target] lv have dv: "distinct v" by simp
    from read_rules_table(1) [OF d, of target] lv have sv: "set v = qualifying lines target"
      by simp
    from assms(1) dv have i: "distinct (set_iter L v)" "set (set_iter L v) = set v"
      by (simp_all add: iterates_sets_def)
    from i(2) ne have "set_iter L v \<noteq> []" by auto
    then have j: "py_join [124] (set_iter L v) @ [124] =
        concat (map (\<lambda>a. a @ [124]) (set_iter L v))"
      by (rule py_join_terminated)
    have p: "patterns = [[40] @ py_join [124] (set_iter L v) @ [41]]"
      using v(2) by (simp add: make_pattern_def)
    have q: "set (set_iter L v) = {link. \<exists>line \<in> set lines. \<exists>n.
                       parse_rule line = Inr (link, target, n) \<and> 10 \<le> n}"
      using i(2) sv by (auto simp: qualifying_def)
    show ?thesis
      by (intro exI conjI, rule p, rule j, rule refl, rule dv, rule i(2) [symmetric],
          rule i(1), rule q)
  qed
  then have e': "\<forall>(target, patterns) \<in> set ?tbl. \<exists>alts body s.
          patterns = [[40] @ body @ [41]] \<and>
          body @ [124] = concat (map (\<lambda>a. a @ [124]) alts) \<and>
          alts = set_iter L s \<and> distinct s \<and> set s = set alts \<and>
          distinct alts \<and>
          set alts = {link. \<exists>line \<in> set lines. \<exists>n.
                       parse_rule line = Inr (link, target, n) \<and> 10 \<le> n}"
    by (intro ballI) (clarify, erule e)
  show ?thesis
    by (rule exI [of _ ?tbl]) (intro conjI c k f e')
qed

theorem pattern_alternatives_are_the_set_witness:
  "(\<exists>tbl. create_dictionary plain_library [rules_file \<mapsto> [line_b, line_a]] rules_file =
       Inr ([], tbl) \<and>
     distinct (map fst tbl) \<and>
     fst ` set tbl =
       {target. \<exists>line \<in> set [line_b, line_a]. \<exists>link n.
                  parse_rule line = Inr (link, target, n) \<and> 10 \<le> n} \<and>
     (\<forall>(target, patterns) \<in> set tbl.
        \<exists>alts body s.
          patterns = [[40] @ body @ [41]] \<and>
          body @ [124] = concat (map (\<lambda>a. a @ [124]) alts) \<and>
          alts = set_iter plain_library s \<and> distinct s \<and> set s = set alts \<and>
          distinct alts \<and>
          set alts = {link. \<exists>line \<in> set [line_b, line_a]. \<exists>n.
                       parse_rule line = Inr (link, target, n) \<and> 10 \<le> n})) \<and>
   create_dictionary plain_library [rules_file \<mapsto> [line_b, line_a]] rules_file =
     Inr ([], [(of_ascii ''x'', [of_ascii ''(b|a)''])])"
proof -
  have "[rules_file \<mapsto> [line_b, line_a]] rules_file = Some [line_b, line_a]"
    by simp
  moreover have "\<forall>l \<in> set [line_b, line_a]. \<exists>r. parse_rule l = Inr r"
    by (simp add: example_rules_parsed)
  ultimately have "\<exists>tbl.
     create_dictionary plain_library [rules_file \<mapsto> [line_b, line_a]] rules_file =
       Inr ([], tbl) \<and>
     distinct (map fst tbl) \<and>
     fst ` set tbl =
       {target. \<exists>line \<in> set [line_b, line_a]. \<exists>link n.
                  parse_rule line = Inr (link, target, n) \<and> 10 \<le> n} \<and>
     (\<forall>(target, patterns) \<in> set tbl.
        \<exists>alts body s.
          patterns = [[40] @ body @ [41]] \<and>
          body @ [124] = concat (map (\<lambda>a. a @ [124]) alts) \<and>
          alts = set_iter plain_library s \<and> distinct s \<and> set s = set alts \<and>
          distinct alts \<and>
          set alts = {link. \<exists>line \<in> set [line_b, line_a]. \<exists>n.
                       parse_rule line = Inr (link, target, n) \<and> 10 \<le> n})"
    by (rule pattern_alternatives_are_the_set [OF plain_iterates])
  moreover have
    "create_dictionary plain_library [rules_file \<mapsto> [line_b, line_a]] rules_file =
     Inr ([], [(of_ascii ''x'', [of_ascii ''(b|a)''])])"
    by (simp add: create_dictionary_def example_rules_parsed link_patterns_def set_add_def
        plain_library_def make_pattern_def run_simps)
  ultimately show ?thesis by (rule conjI)
qed

text \<open>
  With a set that iterates against insertion order, the rows \<open>(b, x, 10)\<close> and
  \<open>(a, x, 10)\<close> give the pattern \<open>(a|b)\<close>, and first-seen order would give
  \<open>(b|a)\<close>.
\<close>

theorem first_seen_order_counterexample:
  "iterates_sets (set_iter reversing_library) \<and>
   create_dictionary reversing_library [rules_file \<mapsto> [line_b, line_a]] rules_file =
     Inr ([], [(of_ascii ''x'', [of_ascii ''(a|b)''])]) \<and>
   create_dictionary reversing_library [rules_file \<mapsto> [line_b, line_a]] rules_file \<noteq>
     Inr ([], [(of_ascii ''x'', [of_ascii ''(b|a)''])])"
  using reversing_iterates
  by (simp add: create_dictionary_def example_rules_parsed link_patterns_def set_add_def
      reversing_library_def plain_library_def make_pattern_def run_simps)

section \<open>The translation \<open>create_vocabulary\<close> stores\<close>

text \<open>
  The loop over the candidates keeps the first candidate whose ratio is the greatest,
  when a ratio is above the starting value; it keeps the starting pair otherwise.
\<close>

lemma best_translation_first_max:
  assumes "best_translation aw tab (m, tr) = (m', tr')"
  shows "if \<exists>t \<in> set tab. m < ratio aw t
     then \<exists>i < length tab. tr' = tab ! i \<and> m' = ratio aw (tab ! i) \<and> m < m' \<and>
            (\<forall>j < length tab. ratio aw (tab ! j) \<le> m') \<and> (\<forall>j < i. ratio aw (tab ! j) < m')
     else m' = m \<and> tr' = tr"
  using assms
proof (induction tab arbitrary: m tr)
  case Nil
  then show ?case by simp
next
  case (Cons t rest)
  show ?case
  proof (cases "m < ratio aw t")
    case True
    with Cons.prems have r: "best_translation aw rest (ratio aw t, t) = (m', tr')"
      by (simp add: Let_def)
    note ih = Cons.IH [OF r]
    show ?thesis
    proof (cases "\<exists>u \<in> set rest. ratio aw t < ratio aw u")
      case more: True
      with ih obtain i where i: "i < length rest" "tr' = rest ! i" "m' = ratio aw (rest ! i)"
        "ratio aw t < m'" "\<forall>j < length rest. ratio aw (rest ! j) \<le> m'"
        "\<forall>j < i. ratio aw (rest ! j) < m'"
        by auto
      have "\<forall>j < length (t # rest). ratio aw ((t # rest) ! j) \<le> m'"
        using i(4,5) by (auto simp: nth_Cons split: nat.split)
      moreover have "\<forall>j < Suc i. ratio aw ((t # rest) ! j) < m'"
        using i(4,6) by (auto simp: nth_Cons split: nat.split)
      moreover have "m < m'" using True i(4) by simp
      ultimately have "Suc i < length (t # rest) \<and> tr' = (t # rest) ! Suc i \<and>
          m' = ratio aw ((t # rest) ! Suc i) \<and> m < m' \<and>
          (\<forall>j < length (t # rest). ratio aw ((t # rest) ! j) \<le> m') \<and>
          (\<forall>j < Suc i. ratio aw ((t # rest) ! j) < m')"
        using i(1,2,3) by simp
      then have "\<exists>i < length (t # rest). tr' = (t # rest) ! i \<and> m' = ratio aw ((t # rest) ! i) \<and>
          m < m' \<and> (\<forall>j < length (t # rest). ratio aw ((t # rest) ! j) \<le> m') \<and>
          (\<forall>j < i. ratio aw ((t # rest) ! j) < m')"
        by blast
      with True show ?thesis by (simp del: length_Cons nth_Cons_Suc)
    next
      case none: False
      with ih have e: "m' = ratio aw t" "tr' = t" by auto
      have "\<forall>j < length (t # rest). ratio aw ((t # rest) ! j) \<le> m'"
        using none e(1) by (auto simp: nth_Cons not_less split: nat.split)
      then have "0 < length (t # rest) \<and> tr' = (t # rest) ! 0 \<and>
          m' = ratio aw ((t # rest) ! 0) \<and> m < m' \<and>
          (\<forall>j < length (t # rest). ratio aw ((t # rest) ! j) \<le> m') \<and>
          (\<forall>j < 0. ratio aw ((t # rest) ! j) < m')"
        using e True by simp
      then have "\<exists>i < length (t # rest). tr' = (t # rest) ! i \<and> m' = ratio aw ((t # rest) ! i) \<and>
          m < m' \<and> (\<forall>j < length (t # rest). ratio aw ((t # rest) ! j) \<le> m') \<and>
          (\<forall>j < i. ratio aw ((t # rest) ! j) < m')"
        by blast
      with True show ?thesis by (simp del: length_Cons nth_Cons_0)
    qed
  next
    case False
    with Cons.prems have r: "best_translation aw rest (m, tr) = (m', tr')"
      by (simp add: Let_def)
    note ih = Cons.IH [OF r]
    show ?thesis
    proof (cases "\<exists>u \<in> set rest. m < ratio aw u")
      case more: True
      with ih obtain i where i: "i < length rest" "tr' = rest ! i" "m' = ratio aw (rest ! i)"
        "m < m'" "\<forall>j < length rest. ratio aw (rest ! j) \<le> m'"
        "\<forall>j < i. ratio aw (rest ! j) < m'"
        by auto
      from False i(4) have t: "ratio aw t < m'" by simp
      have "\<forall>j < length (t # rest). ratio aw ((t # rest) ! j) \<le> m'"
        using t i(5) by (auto simp: nth_Cons split: nat.split)
      moreover have "\<forall>j < Suc i. ratio aw ((t # rest) ! j) < m'"
        using t i(6) by (auto simp: nth_Cons split: nat.split)
      ultimately have "Suc i < length (t # rest) \<and> tr' = (t # rest) ! Suc i \<and>
          m' = ratio aw ((t # rest) ! Suc i) \<and> m < m' \<and>
          (\<forall>j < length (t # rest). ratio aw ((t # rest) ! j) \<le> m') \<and>
          (\<forall>j < Suc i. ratio aw ((t # rest) ! j) < m')"
        using i(1,2,3,4) by simp
      then have "\<exists>i < length (t # rest). tr' = (t # rest) ! i \<and> m' = ratio aw ((t # rest) ! i) \<and>
          m < m' \<and> (\<forall>j < length (t # rest). ratio aw ((t # rest) ! j) \<le> m') \<and>
          (\<forall>j < i. ratio aw ((t # rest) ! j) < m')"
        by blast
      moreover from more have "\<exists>u \<in> set (t # rest). m < ratio aw u" by simp
      ultimately show ?thesis by (simp del: length_Cons nth_Cons_Suc)
    next
      case none: False
      with ih have "m' = m \<and> tr' = tr" by simp
      moreover from none False have "\<not> (\<exists>u \<in> set (t # rest). m < ratio aw u)" by simp
      ultimately show ?thesis by (simp del: set_simps)
    qed
  qed
qed

lemma store_words_lookup:
  assumes "py_getitem columns 1 = Inr pos" "tab \<noteq> []"
  shows "\<exists>v'. store_words v columns tab words = Inr v' \<and>
     (\<forall>aw. v' aw = (if aw \<in> set words
                    then Some (snd (best_translation aw tab (0, [])), pos) else v aw))"
proof (induction words arbitrary: v)
  case Nil
  then show ?case by simp
next
  case (Cons a words)
  let ?v1 = "v(a \<mapsto> (snd (best_translation a tab (0, [])), pos))"
  from Cons.IH [of ?v1] obtain v' where
    v': "store_words ?v1 columns tab words = Inr v'"
      "\<forall>aw. v' aw = (if aw \<in> set words
                    then Some (snd (best_translation aw tab (0, [])), pos) else ?v1 aw)"
    by blast
  have "store_words v columns tab (a # words) = Inr v'"
    using assms v'(1) by (simp add: choose_trad_def)
  moreover have "\<forall>aw. v' aw = (if aw \<in> set (a # words)
                    then Some (snd (best_translation aw tab (0, [])), pos) else v aw)"
    using v'(2) by auto
  ultimately show ?case by blast
qed

text \<open>Ratios and a vocabulary row for concrete runs.\<close>

lemma example_ratios:
  "ratio [97, 98] [120, 121] = 0"
  "ratio [97, 98] [122, 122] = 0"
  by code_simp+

lemma schaffe_ratios:
  "ratio (of_ascii ''schaffe'') (of_ascii ''schafen'') = 6 / 7"
  "ratio (of_ascii ''schaffe'') (of_ascii ''schaffen'') = 14 / 15"
  by code_simp+

definition unrelated_line :: pystr where
  "unrelated_line =
     of_ascii ''x'' @ [9] @ of_ascii ''N'' @ [9] @ of_ascii ''ab'' @ [9] @ of_ascii ''xy;zz'' @ [10]"

text \<open>
  When a candidate of the row has a ratio above zero against the Alsatian form, the
  translation stored for that form by the row is the first candidate among those
  whose ratio is the greatest: no candidate has a greater ratio and every candidate
  before it has a smaller one.
\<close>

lemma stored_translation_first_maximum:
  assumes "py_getitem columns 1 = Inr pos"
    and "aw \<in> set alsatian_words"
    and "\<exists>t \<in> set translations_tab. 0 < ratio aw t"
  shows "\<exists>v' i. store_words v columns translations_tab alsatian_words = Inr v' \<and>
     i < length translations_tab \<and> v' aw = Some (translations_tab ! i, pos) \<and>
     (\<forall>j < length translations_tab.
        ratio aw (translations_tab ! j) \<le> ratio aw (translations_tab ! i)) \<and>
     (\<forall>j < i. ratio aw (translations_tab ! j) < ratio aw (translations_tab ! i))"
proof -
  from assms(3) have ne: "translations_tab \<noteq> []" by auto
  from store_words_lookup [OF assms(1) ne, of v alsatian_words] assms(2) obtain v' where
    v': "store_words v columns translations_tab alsatian_words = Inr v'"
      "v' aw = Some (snd (best_translation aw translations_tab (0, [])), pos)"
    by auto
  obtain m' tr' where b: "best_translation aw translations_tab (0, []) = (m', tr')"
    by (cases "best_translation aw translations_tab (0, [])") auto
  from best_translation_first_max [OF b] assms(3) obtain i where
    "i < length translations_tab" "tr' = translations_tab ! i"
    "m' = ratio aw (translations_tab ! i)"
    "\<forall>j < length translations_tab. ratio aw (translations_tab ! j) \<le> m'"
    "\<forall>j < i. ratio aw (translations_tab ! j) < m'"
    by auto
  with v' b show ?thesis by auto
qed

lemma stored_translation_first_maximum_example:
  "\<exists>v' i. store_words Map.empty [of_ascii ''x'', of_ascii ''V'']
       [of_ascii ''schafen'', of_ascii ''schaffen''] [of_ascii ''schaffe''] = Inr v' \<and>
     i < length [of_ascii ''schafen'', of_ascii ''schaffen''] \<and>
     v' (of_ascii ''schaffe'') =
       Some ([of_ascii ''schafen'', of_ascii ''schaffen''] ! i, of_ascii ''V'') \<and>
     (\<forall>j < length [of_ascii ''schafen'', of_ascii ''schaffen''].
        ratio (of_ascii ''schaffe'') ([of_ascii ''schafen'', of_ascii ''schaffen''] ! j) \<le>
        ratio (of_ascii ''schaffe'') ([of_ascii ''schafen'', of_ascii ''schaffen''] ! i)) \<and>
     (\<forall>j < i. ratio (of_ascii ''schaffe'') ([of_ascii ''schafen'', of_ascii ''schaffen''] ! j) <
        ratio (of_ascii ''schaffe'') ([of_ascii ''schafen'', of_ascii ''schaffen''] ! i))"
proof (rule stored_translation_first_maximum)
  show "py_getitem [of_ascii ''x'', of_ascii ''V''] 1 = Inr (of_ascii ''V'')"
    by (simp add: py_getitem_def)
  show "of_ascii ''schaffe'' \<in> set [of_ascii ''schaffe'']"
    by simp
  show "\<exists>t \<in> set [of_ascii ''schafen'', of_ascii ''schaffen'']. 0 < ratio (of_ascii ''schaffe'') t"
    by (simp add: schaffe_ratios)
qed

text \<open>
  C2. The row holds the Alsatian form \<open>ab\<close> and the two candidates \<open>xy\<close> and
  \<open>zz\<close>, which share no character with it: both ratios are zero. The loop starts
  from the ratio zero and the empty string and takes a candidate only on a greater
  ratio, so it takes none: the translation stored for \<open>ab\<close> is the empty string,
  which is not a candidate, where the candidate of the greatest ratio seen first is
  \<open>xy\<close>.
\<close>

theorem no_similar_candidate_stored:
  "(case create_vocabulary [vocabulary_file \<mapsto> [unrelated_line]] vocabulary_file
           (of_ascii ''de'') of
      Inl e \<Rightarrow> None
    | Inr (printed, None) \<Rightarrow> None
    | Inr (printed, Some d) \<Rightarrow> d (of_ascii ''ab'')) = Some ([], of_ascii ''N'') \<and>
   py_split 59 (of_ascii ''xy;zz'') = [of_ascii ''xy'', of_ascii ''zz''] \<and>
   ratio (of_ascii ''ab'') (of_ascii ''xy'') = 0 \<and>
   ratio (of_ascii ''ab'') (of_ascii ''zz'') = 0 \<and>
   [] \<notin> set [of_ascii ''xy'', of_ascii ''zz'']"
  by (simp add: create_vocabulary_def unrelated_line_def select_translations_def choose_trad_def
      example_ratios run_simps Let_def)

end
